theory Spec2Isabelle
  imports Complex_Main "HOL-Library.Word" "HOL-Library.Char_ord" "HOL-Library.List_Lexorder"
    "HOL-Library.AList"
begin

unbundle bit_operations_syntax

section \<open>Go values used by the selector\<close>

text \<open>
  Go strings are byte sequences: they are modelled as \<open>string\<close>, a list of 8-bit
  characters, compared bytewise (\<open>HOL-Library.List_Lexorder\<close> over \<open>Char_ord\<close>
  is Go's \<open><\<close> on strings). \<open>time.Time\<close> is an instant on one time line, counted in
  nanoseconds from the zero time, so that \<open>IsZero\<close> is \<open>t = 0\<close>; a
  \<open>time.Duration\<close> is a number of nanoseconds in the int64 range. The current time
  (\<open>time.Now()\<close>) is an argument of every function that reads it.
\<close>

type_synonym time = int
type_synonym duration = int

definition time_After :: "time \<Rightarrow> time \<Rightarrow> bool" where
  "time_After t u \<longleftrightarrow> u < t"

definition time_Before :: "time \<Rightarrow> time \<Rightarrow> bool" where
  "time_Before t u \<longleftrightarrow> t < u"

definition time_IsZero :: "time \<Rightarrow> bool" where
  "time_IsZero t \<longleftrightarrow> t = 0"

definition time_Add :: "time \<Rightarrow> duration \<Rightarrow> time" where
  "time_Add t d = t + d"

definition maxDuration :: duration where
  "maxDuration = 2 ^ 63 - 1"

definition minDuration :: duration where
  "minDuration = - (2 ^ 63)"

text \<open>\<open>t.Sub(u)\<close> saturates at the largest and the smallest duration.\<close>

definition time_Sub :: "time \<Rightarrow> time \<Rightarrow> duration" where
  "time_Sub t u =
     (let d = t - u
      in if maxDuration < d then maxDuration else if d < minDuration then minDuration else d)"

definition time_Minute :: duration where
  "time_Minute = 60 * 1000000000"

definition time_Hour :: duration where
  "time_Hour = 60 * time_Minute"

subsection \<open>The strings package\<close>

definition HasPrefix :: "string \<Rightarrow> string \<Rightarrow> bool" where
  "HasPrefix s p \<longleftrightarrow> take (length p) s = p"

text \<open>
  The white space of \<open>unicode.IsSpace\<close>, each rune in its UTF-8 encoding: the six ASCII
  spaces, U+0085, U+00A0, U+1680, U+2000 to U+200A, U+2028, U+2029, U+202F, U+205F and
  U+3000. \<open>strings.TrimSpace\<close> removes such runes from the front and then from the back;
  reading a rune backwards from the end finds one of them exactly when its encoding is a
  suffix.
\<close>

definition spaceRunes :: "string list" where
  "spaceRunes =
     [[CHR 0x09], [CHR 0x0A], [CHR 0x0B], [CHR 0x0C], [CHR 0x0D], [CHR 0x20],
      [CHR 0xC2, CHR 0x85], [CHR 0xC2, CHR 0xA0], [CHR 0xE1, CHR 0x9A, CHR 0x80],
      [CHR 0xE2, CHR 0x80, CHR 0x80], [CHR 0xE2, CHR 0x80, CHR 0x81],
      [CHR 0xE2, CHR 0x80, CHR 0x82], [CHR 0xE2, CHR 0x80, CHR 0x83],
      [CHR 0xE2, CHR 0x80, CHR 0x84], [CHR 0xE2, CHR 0x80, CHR 0x85],
      [CHR 0xE2, CHR 0x80, CHR 0x86], [CHR 0xE2, CHR 0x80, CHR 0x87],
      [CHR 0xE2, CHR 0x80, CHR 0x88], [CHR 0xE2, CHR 0x80, CHR 0x89],
      [CHR 0xE2, CHR 0x80, CHR 0x8A], [CHR 0xE2, CHR 0x80, CHR 0xA8],
      [CHR 0xE2, CHR 0x80, CHR 0xA9], [CHR 0xE2, CHR 0x80, CHR 0xAF],
      [CHR 0xE2, CHR 0x81, CHR 0x9F], [CHR 0xE3, CHR 0x80, CHR 0x80]]"

text \<open>The number of bytes of the white-space rune that \<open>s\<close> starts with; 0 when there is none.\<close>

definition leadingSpace :: "string list \<Rightarrow> string \<Rightarrow> nat" where
  "leadingSpace runes s =
     (case find (\<lambda>r. r \<noteq> [] \<and> HasPrefix s r) runes of None \<Rightarrow> 0 | Some r \<Rightarrow> length r)"

function trimLeft :: "string list \<Rightarrow> string \<Rightarrow> string" where
  "trimLeft runes s =
     (if leadingSpace runes s = 0 then s else trimLeft runes (drop (leadingSpace runes s) s))"
  by pat_completeness auto

termination trimLeft
proof (relation "measure (\<lambda>(runes, s). length s)")
  show "wf (measure (\<lambda>(runes, s). length s))" by simp
next
  fix runes :: "string list" and s :: string
  assume nz: "leadingSpace runes s \<noteq> 0"
  have "leadingSpace runes s \<le> length s"
  proof (cases "find (\<lambda>r. r \<noteq> [] \<and> HasPrefix s r) runes")
    case None
    then show ?thesis by (simp add: leadingSpace_def)
  next
    case (Some r)
    then have "HasPrefix s r" by (auto simp: find_Some_iff)
    then have "length r \<le> length s"
      by (metis HasPrefix_def length_take min.cobounded1)
    with Some show ?thesis by (simp add: leadingSpace_def)
  qed
  with nz show "((runes, drop (leadingSpace runes s) s), (runes, s))
      \<in> measure (\<lambda>(runes, s). length s)"
    by simp
qed

definition TrimSpace :: "string \<Rightarrow> string" where
  "TrimSpace s = rev (trimLeft (map rev spaceRunes) (rev (trimLeft spaceRunes s)))"

definition isUpperASCII :: "char \<Rightarrow> bool" where
  "isUpperASCII c \<longleftrightarrow> 65 \<le> (of_char c :: nat) \<and> (of_char c :: nat) \<le> 90"

definition isLowerASCII :: "char \<Rightarrow> bool" where
  "isLowerASCII c \<longleftrightarrow> 97 \<le> (of_char c :: nat) \<and> (of_char c :: nat) \<le> 122"

definition lowerASCII :: "char \<Rightarrow> char" where
  "lowerASCII c = (if isUpperASCII c then char_of ((of_char c :: nat) + 32) else c)"

definition upperASCII :: "char \<Rightarrow> char" where
  "upperASCII c = (if isLowerASCII c then char_of ((of_char c :: nat) - 32) else c)"

text \<open>
  \<open>strings.ToLower\<close>. ASCII letters are lower-cased. Two runes outside ASCII have an
  ASCII lower case: U+0130 gives \<open>i\<close> and U+212A gives \<open>k\<close>. The bytes of every other
  rune outside ASCII are kept as they are: Go maps such a rune to a rune outside ASCII
  again, and the code below only compares the result with ASCII text.
\<close>

fun ToLower :: "string \<Rightarrow> string" where
  "ToLower [] = []"
| "ToLower (c # cs) =
     (if c = CHR 0xC4 \<and> take 1 cs = [CHR 0xB0] then CHR ''i'' # ToLower (drop 1 cs)
      else if c = CHR 0xE2 \<and> take 2 cs = [CHR 0x84, CHR 0xAA] then CHR ''k'' # ToLower (drop 2 cs)
      else lowerASCII c # ToLower cs)"

text \<open>\<open>strings.SplitN(s, " ", 2)\<close>: one part without a space, else the text before the
  first space and the text after it.\<close>

definition SplitN2 :: "string \<Rightarrow> string list" where
  "SplitN2 s =
     (if CHR '' '' \<in> set s
      then [takeWhile (\<lambda>c. c \<noteq> CHR '' '') s, drop 1 (dropWhile (\<lambda>c. c \<noteq> CHR '' '') s)]
      else [s])"

subsection \<open>crypto/sha256, encoding/hex and encoding/binary\<close>

text \<open>
  SHA-256 as FIPS 180-4 defines it, over the bytes of the message: the message is padded
  to a multiple of 64 bytes, and each block updates eight 32-bit words. \<open>sha256_Sum256\<close>
  returns the 32 bytes of the digest. The round constants and the initial hash value
  are written in decimal.
\<close>

type_synonym u32 = "32 word"

definition sha256_K :: "u32 list" where
  "sha256_K =
    [1116352408, 1899447441, 3049323471, 3921009573, 961987163, 1508970993,
     2453635748, 2870763221, 3624381080, 310598401, 607225278, 1426881987,
     1925078388, 2162078206, 2614888103, 3248222580, 3835390401, 4022224774,
     264347078, 604807628, 770255983, 1249150122, 1555081692, 1996064986,
     2554220882, 2821834349, 2952996808, 3210313671, 3336571891, 3584528711,
     113926993, 338241895, 666307205, 773529912, 1294757372, 1396182291,
     1695183700, 1986661051, 2177026350, 2456956037, 2730485921, 2820302411,
     3259730800, 3345764771, 3516065817, 3600352804, 4094571909, 275423344,
     430227734, 506948616, 659060556, 883997877, 958139571, 1322822218,
     1537002063, 1747873779, 1955562222, 2024104815, 2227730452, 2361852424,
     2428436474, 2756734187, 3204031479, 3329325298]"

definition sha256_init :: "u32 list" where
  "sha256_init =
    [1779033703, 3144134277, 1013904242, 2773480762,
     1359893119, 2600822924, 528734635, 1541459225]"

definition rotr32 :: "nat \<Rightarrow> u32 \<Rightarrow> u32" where
  "rotr32 n x = (drop_bit n x) OR (push_bit (32 - n) x)"

text \<open>The \<open>n\<close> bytes of \<open>v\<close>, most significant first, and the number that bytes spell.\<close>

definition be_bytes :: "nat \<Rightarrow> nat \<Rightarrow> nat list" where
  "be_bytes n v = map (\<lambda>i. (v div 256 ^ (n - 1 - i)) mod 256) [0..<n]"

definition be_nat :: "nat list \<Rightarrow> nat" where
  "be_nat bs = foldl (\<lambda>acc b. acc * 256 + b) 0 bs"

definition sha256_pad :: "nat list \<Rightarrow> nat list" where
  "sha256_pad m =
     m @ [0x80] @ replicate ((119 - length m mod 64) mod 64) 0 @ be_bytes 8 (8 * length m)"

fun chunks :: "nat \<Rightarrow> nat \<Rightarrow> 'a list \<Rightarrow> 'a list list" where
  "chunks 0 n xs = []"
| "chunks (Suc k) n xs = take n xs # chunks k n (drop n xs)"

fun sha256_schedule :: "nat \<Rightarrow> u32 list \<Rightarrow> u32 list" where
  "sha256_schedule 0 w = w"
| "sha256_schedule (Suc k) w =
     (let t = length w;
          s0 = rotr32 7 (w ! (t - 15)) XOR rotr32 18 (w ! (t - 15)) XOR drop_bit 3 (w ! (t - 15));
          s1 = rotr32 17 (w ! (t - 2)) XOR rotr32 19 (w ! (t - 2)) XOR drop_bit 10 (w ! (t - 2))
      in sha256_schedule k (w @ [w ! (t - 16) + s0 + w ! (t - 7) + s1]))"

fun sha256_round :: "u32 list \<Rightarrow> u32 \<times> u32 \<Rightarrow> u32 list" where
  "sha256_round [a, b, c, d, e, f, g, h] (k, w) =
     (let S1 = rotr32 6 e XOR rotr32 11 e XOR rotr32 25 e;
          ch = (e AND f) XOR (NOT e AND g);
          t1 = h + S1 + ch + k + w;
          S0 = rotr32 2 a XOR rotr32 13 a XOR rotr32 22 a;
          mj = (a AND b) XOR (a AND c) XOR (b AND c);
          t2 = S0 + mj
      in [t1 + t2, a, b, c, d + t1, e, f, g])"
| "sha256_round v _ = v"

definition sha256_block :: "u32 list \<Rightarrow> nat list \<Rightarrow> u32 list" where
  "sha256_block hs blk =
     (let w = sha256_schedule 48 (map (\<lambda>q. of_nat (be_nat q)) (chunks 16 4 blk))
      in map2 (+) hs (foldl sha256_round hs (zip sha256_K w)))"

definition sha256_Sum256 :: "string \<Rightarrow> string" where
  "sha256_Sum256 m =
     (let p = sha256_pad (map of_char m);
          hs = foldl sha256_block sha256_init (chunks (length p div 64) 64 p)
      in map char_of (concat (map (\<lambda>x. be_bytes 4 (unat x)) hs)))"

definition hexdigit :: "nat \<Rightarrow> char" where
  "hexdigit n = ''0123456789abcdef'' ! n"

definition hex_EncodeToString :: "string \<Rightarrow> string" where
  "hex_EncodeToString bs =
     concat (map (\<lambda>c. [hexdigit (of_char c div 16), hexdigit (of_char c mod 16)]) bs)"

text \<open>\<open>binary.BigEndian.Uint64\<close> of an 8-byte slice.\<close>

definition BigEndian_Uint64 :: "string \<Rightarrow> 64 word" where
  "BigEndian_Uint64 bs = of_nat (be_nat (map of_char bs))"

subsection \<open>strconv\<close>

text \<open>
  Go's \<open>int\<close> is taken as the 64-bit signed integer: a \<open>64 word\<close> read with \<open>sint\<close>.
  \<open>strconv.Atoi\<close> (and \<open>ParseInt(s, 10, 64)\<close>) accepts an optional sign and then one or
  more decimal digits, and fails when the value is outside the int range; \<open>None\<close> is its
  error.
\<close>

type_synonym go_int = "64 word"

definition MaxInt :: go_int where
  "MaxInt = 0x7FFFFFFFFFFFFFFF"

definition isDigit :: "char \<Rightarrow> bool" where
  "isDigit c \<longleftrightarrow> 48 \<le> (of_char c :: nat) \<and> (of_char c :: nat) \<le> 57"

definition digitsValue :: "string \<Rightarrow> int" where
  "digitsValue ds = foldl (\<lambda>acc c. acc * 10 + (of_char c - 48)) 0 ds"

definition Atoi :: "string \<Rightarrow> go_int option" where
  "Atoi s =
     (let neg = (take 1 s = ''-'');
          ds = (if take 1 s = ''-'' \<or> take 1 s = ''+'' then drop 1 s else s)
      in if ds = [] \<or> \<not> list_all isDigit ds then None
         else (let v = (if neg then - digitsValue ds else digitsValue ds)
               in if v < - (2 ^ 63) \<or> 2 ^ 63 - 1 < v then None else Some (word_of_int v)))"

text \<open>
  A floating-point value is the rational number it denotes, or one of the values that
  denote none. \<open>int(val)\<close> truncates towards zero; for a value outside the int range Go
  leaves the result to the platform, and the model takes amd64's.
\<close>

datatype float = FloatFinite rat | FloatNaN | FloatInf bool

definition float_to_int :: "float \<Rightarrow> go_int" where
  "float_to_int f =
     (case f of
        FloatFinite q \<Rightarrow>
          (let z = (if 0 \<le> q then \<lfloor>q\<rfloor> else \<lceil>q\<rceil>)
           in if - (2 ^ 63) \<le> z \<and> z \<le> 2 ^ 63 - 1 then word_of_int z else 0x8000000000000000)
      | _ \<Rightarrow> 0x8000000000000000)"

section \<open>Credential records\<close>

text \<open>
  The record type \<open>Auth\<close>, its \<open>Status\<close>, \<open>QuotaState\<close> and \<open>ModelState\<close> are declared
  in other files of the package; their fields are taken from the uses in the selector and its
  tests (\<open>ID\<close>, \<open>Provider\<close>, \<open>Status\<close>, \<open>Metadata\<close>, \<open>Attributes\<close>, \<open>ModelStates\<close>) and
  from the data model of the specification. A Go map is an association list read with
  \<open>map_of\<close>; a nil map reads like an empty one. A value of type \<open>any\<close> is one of the
  dynamic types \<open>priorityFromAny\<close> tells apart, or something else. A \<open>*Auth\<close> is an
  \<open>Auth option\<close>, \<open>None\<close> being the nil pointer.
\<close>

datatype any = AnyInt go_int | AnyInt64 "64 word" | AnyFloat64 float | AnyFloat32 float
  | AnyString string | AnyOther

datatype Status = StatusActive | StatusDisabled | StatusInvalid | StatusPending

record QuotaState =
  Exceeded :: bool
  Reason :: string
  NextRecoverAt :: time
  BackoffLevel :: int

record ModelState =
  Unavailable :: bool
  NextRetryAfter :: time
  ModelQuota :: QuotaState

record Auth =
  ID :: string
  Provider :: string
  Status :: Status
  Disabled :: bool
  Metadata :: "(string \<times> any) list"
  Attributes :: "(string \<times> string) list"
  Quota :: QuotaState
  ModelStates :: "(string \<times> ModelState) list"

record Error =
  Code :: string
  Message :: string

definition defaultAuthPriority :: go_int where
  "defaultAuthPriority = 50"

definition priorityFromAny :: "any \<Rightarrow> go_int \<times> bool" where
  "priorityFromAny v =
     (case v of
        AnyInt val \<Rightarrow> (val, True)
      | AnyInt64 val \<Rightarrow> (val, True)
      | AnyFloat64 val \<Rightarrow> (float_to_int val, True)
      | AnyFloat32 val \<Rightarrow> (float_to_int val, True)
      | AnyString val \<Rightarrow>
          (if TrimSpace val = [] then (0, False)
           else (case Atoi (TrimSpace val) of Some parsed \<Rightarrow> (parsed, True) | None \<Rightarrow> (0, False)))
      | AnyOther \<Rightarrow> (0, False))"

definition authPriority :: "Auth option \<Rightarrow> go_int" where
  "authPriority a =
     (case a of
        None \<Rightarrow> defaultAuthPriority
      | Some a \<Rightarrow>
          (case (case map_of (Metadata a) ''priority'' of
                   Some v \<Rightarrow> (if snd (priorityFromAny v) then Some (fst (priorityFromAny v)) else None)
                 | None \<Rightarrow> None) of
             Some p \<Rightarrow> p
           | None \<Rightarrow>
               (let v = TrimSpace (case map_of (Attributes a) ''priority'' of Some x \<Rightarrow> x | None \<Rightarrow> [])
                in if v \<noteq> [] then (case Atoi v of Some p \<Rightarrow> p | None \<Rightarrow> defaultAuthPriority)
                   else defaultAuthPriority)))"

section \<open>Session keys\<close>

text \<open>
  \<open>http.Header\<close> maps a canonical key to its values; \<open>Get\<close> canonicalises the key it is
  given (first letter and every letter after a hyphen in upper case, the others in lower
  case, when the key is a token) and returns the first value, or the empty string. A nil
  header reads like an empty one, and every use below ignores an empty value.
\<close>

type_synonym Header = "(string \<times> string list) list"

definition validHeaderFieldByte :: "char \<Rightarrow> bool" where
  "validHeaderFieldByte c \<longleftrightarrow>
     isUpperASCII c \<or> isLowerASCII c \<or> isDigit c \<or> c \<in> set ''!#$%&*+-.^_`|~'' \<or> c = CHR 0x27"

fun canonicalMIMEHeaderKey :: "bool \<Rightarrow> string \<Rightarrow> string" where
  "canonicalMIMEHeaderKey upper [] = []"
| "canonicalMIMEHeaderKey upper (c # cs) =
     (let c' = (if upper then upperASCII c else lowerASCII c)
      in c' # canonicalMIMEHeaderKey (c' = CHR ''-'') cs)"

definition CanonicalMIMEHeaderKey :: "string \<Rightarrow> string" where
  "CanonicalMIMEHeaderKey s =
     (if list_all validHeaderFieldByte s then canonicalMIMEHeaderKey True s else s)"

definition Header_Get :: "Header \<Rightarrow> string \<Rightarrow> string" where
  "Header_Get h key =
     (case map_of h (CanonicalMIMEHeaderKey key) of
        None \<Rightarrow> []
      | Some vs \<Rightarrow> (case vs of [] \<Rightarrow> [] | v # _ \<Rightarrow> v))"

record Options =
  Headers :: Header
  OriginalRequest :: string

definition extractBearerToken :: "string \<Rightarrow> string" where
  "extractBearerToken header =
     (let header = TrimSpace header
      in if header = [] then []
         else (let parts = SplitN2 header
               in if length parts \<noteq> 2 then header
                  else if ToLower (parts ! 0) \<noteq> ''bearer'' then header
                  else TrimSpace (parts ! 1)))"

definition stableHash :: "string \<Rightarrow> string" where
  "stableHash input =
     (let input = TrimSpace input
      in if input = [] then [] else hex_EncodeToString (take 16 (sha256_Sum256 input)))"

text \<open>
  \<open>claudeSessionRegex.FindStringSubmatch\<close>: the leftmost place where \<open>session_\<close> is
  followed by 36 characters out of \<open>a-f\<close>, \<open>0-9\<close> and the hyphen; the result is the
  group, those 36 characters.
\<close>

definition sessionChar :: "char \<Rightarrow> bool" where
  "sessionChar c \<longleftrightarrow> c \<in> set ''abcdef0123456789-''"

fun claudeSessionRegex_Find :: "string \<Rightarrow> string option" where
  "claudeSessionRegex_Find [] = None"
| "claudeSessionRegex_Find (c # cs) =
     (if HasPrefix (c # cs) ''session_'' \<and> 36 \<le> length (drop 8 (c # cs))
         \<and> list_all sessionChar (take 36 (drop 8 (c # cs)))
      then Some (take 36 (drop 8 (c # cs)))
      else claudeSessionRegex_Find cs)"

text \<open>
  \<open>extractStickySessionKey\<close>. The JSON reader \<open>gjson.GetBytes(body, path).String()\<close> is a
  library function and an argument here.
\<close>

definition extractStickySessionKey :: "(string \<Rightarrow> string \<Rightarrow> string) \<Rightarrow> Options \<Rightarrow> string" where
  "extractStickySessionKey gjson opts =
     (let headers = Headers opts;
          sid = TrimSpace (Header_Get headers ''session_id'')
      in if sid \<noteq> [] \<and> stableHash sid \<noteq> [] then ''codex:'' @ stableHash sid
         else
           (case (if OriginalRequest opts \<noteq> []
                  then (let userID = TrimSpace (gjson (OriginalRequest opts) ''metadata.user_id'')
                        in if userID \<noteq> [] then claudeSessionRegex_Find (ToLower userID) else None)
                  else None) of
              Some m \<Rightarrow> ''claude:'' @ m
            | None \<Rightarrow>
                (let tok = extractBearerToken (Header_Get headers ''authorization'');
                     tok2 = TrimSpace (Header_Get headers ''x-api-key'');
                     tok3 = TrimSpace (Header_Get headers ''x-goog-api-key'');
                     ua = TrimSpace (Header_Get headers ''user-agent'')
                 in if tok \<noteq> [] \<and> stableHash tok \<noteq> [] then ''apikey:'' @ stableHash tok
                    else if tok2 \<noteq> [] \<and> stableHash tok2 \<noteq> [] then ''apikey:'' @ stableHash tok2
                    else if tok3 \<noteq> [] \<and> stableHash tok3 \<noteq> [] then ''apikey:'' @ stableHash tok3
                    else if ua \<noteq> [] \<and> stableHash ua \<noteq> [] then ''ua:'' @ stableHash ua
                    else [])))"

section \<open>Rendezvous hashing\<close>

definition rendezvousScore :: "string \<Rightarrow> string \<Rightarrow> 64 word" where
  "rendezvousScore sessionKey authID =
     BigEndian_Uint64 (take 8 (sha256_Sum256 (sessionKey @ [CHR 0x00] @ authID)))"

text \<open>The loop of \<open>pickRendezvous\<close> keeps \<open>best\<close> and \<open>bestScore\<close>.\<close>

definition pickRendezvous_step :: "string \<Rightarrow> Auth option \<times> 64 word \<Rightarrow> Auth option \<Rightarrow> Auth option \<times> 64 word" where
  "pickRendezvous_step sessionKey st candidate =
     (case candidate of
        None \<Rightarrow> st
      | Some c \<Rightarrow>
          if ID c = [] then st
          else (let score = rendezvousScore sessionKey (ID c)
                in case fst st of
                     None \<Rightarrow> (Some c, score)
                   | Some best \<Rightarrow>
                       if snd st < score \<or> (score = snd st \<and> ID c < ID best) then (Some c, score)
                       else st))"

definition pickRendezvous :: "string \<Rightarrow> Auth option list \<Rightarrow> Auth option" where
  "pickRendezvous sessionKey available =
     (if sessionKey = [] \<or> available = [] then None
      else fst (foldl (pickRendezvous_step sessionKey) (None, 0) available))"

section \<open>The sticky selector\<close>

text \<open>
  The selector's \<open>bindings\<close> map is an association list with one entry per key, read
  with \<open>map_of\<close>, written with \<open>AList.update\<close> and \<open>AList.delete\<close>; its length is
  \<open>len(s.bindings)\<close>, and a nil map reads like an empty one. The mutex is not modelled:
  \<open>Pick\<close> holds it from its first access of the selector to its return, so each call is
  one step from a selector state to the next. The round-robin selector \<open>rr\<close> is declared
  in another file of the package; its state is the type parameter.
\<close>

record stickyBinding =
  authID :: string
  expiresAt :: time
  lastUsedAt :: time

record 'rr StickySelector =
  bindings :: "(string \<times> stickyBinding) list"
  lastGC :: time
  rr :: 'rr

definition stickySessionTTL :: duration where
  "stickySessionTTL = time_Hour"

definition stickyGCInterval :: duration where
  "stickyGCInterval = 10 * time_Minute"

definition stickyGCMinEntries :: nat where
  "stickyGCMinEntries = 1024"

definition gcLocked :: "time \<Rightarrow> 'rr StickySelector \<Rightarrow> 'rr StickySelector" where
  "gcLocked now s =
     (if length (bindings s) = 0 then s\<lparr>lastGC := now\<rparr>
      else s\<lparr>bindings := filter (\<lambda>(k, v). \<not> (authID v = [] \<or> time_After now (expiresAt v))) (bindings s),
             lastGC := now\<rparr>)"

text \<open>The two loops over \<open>available\<close> that keep the candidates of the least priority value.\<close>

definition minPriority :: "Auth option list \<Rightarrow> go_int" where
  "minPriority available =
     foldl (\<lambda>m candidate. if authPriority candidate <s m then authPriority candidate else m)
       MaxInt available"

definition priorityFiltered :: "Auth option list \<Rightarrow> Auth option list" where
  "priorityFiltered available =
     filter (\<lambda>candidate. authPriority candidate = minPriority available) available"

text \<open>
  \<open>loadByAuthID\<close>: the number of bindings of the provider that are not expired, for each
  credential id. \<open>minLoad\<close> starts at the largest int.
\<close>

definition loadByAuthID :: "string \<Rightarrow> time \<Rightarrow> (string \<times> stickyBinding) list \<Rightarrow> string \<Rightarrow> nat" where
  "loadByAuthID provider now bs aid =
     length (filter (\<lambda>(k, binding). HasPrefix k (provider @ '':'')
                       \<and> \<not> (authID binding = [] \<or> time_After now (expiresAt binding))
                       \<and> authID binding = aid) bs)"

definition minLoad_step :: "(string \<Rightarrow> nat) \<Rightarrow> nat \<Rightarrow> Auth option \<Rightarrow> nat" where
  "minLoad_step load m candidate =
     (case candidate of
        None \<Rightarrow> m
      | Some c \<Rightarrow> if ID c = [] then m else if load (ID c) < m then load (ID c) else m)"

definition minLoad :: "(string \<Rightarrow> nat) \<Rightarrow> Auth option list \<Rightarrow> nat" where
  "minLoad load filtered = foldl (minLoad_step load) (2 ^ 63 - 1) filtered"

definition loadFiltered :: "(string \<Rightarrow> nat) \<Rightarrow> Auth option list \<Rightarrow> Auth option list" where
  "loadFiltered load filtered =
     filter (\<lambda>candidate.
               case candidate of
                 None \<Rightarrow> False
               | Some c \<Rightarrow> ID c \<noteq> [] \<and> load (ID c) = minLoad load filtered) filtered"

text \<open>
  The binding that \<open>Pick\<close> writes, at a sticky hit and at the commit of a new session
  alike: it expires one TTL after \<open>now\<close>.
\<close>

definition freshBinding :: "string \<Rightarrow> time \<Rightarrow> stickyBinding" where
  "freshBinding aid now =
     \<lparr>authID = aid, expiresAt = time_Add now stickySessionTTL, lastUsedAt = now\<rparr>"

text \<open>The garbage collection at the start of \<open>Pick\<close>'s critical section, when it is due.\<close>

definition gcIfDue :: "time \<Rightarrow> 'rr StickySelector \<Rightarrow> 'rr StickySelector" where
  "gcIfDue now s =
     (if 0 < length (bindings s)
         \<and> (stickyGCMinEntries \<le> length (bindings s) \<or> time_IsZero (lastGC s)
             \<or> stickyGCInterval \<le> time_Sub now (lastGC s))
      then gcLocked now s else s)"

text \<open>
  The second half of \<open>Pick\<close>, from the priority filter to the commit of the new binding
  (a session without a usable binding).
\<close>

definition bindNew :: "string \<Rightarrow> string \<Rightarrow> string \<Rightarrow> time \<Rightarrow> Auth option list
    \<Rightarrow> 'rr StickySelector \<Rightarrow> (Error + Auth) \<times> 'rr StickySelector" where
  "bindNew sessionKey bindingKey provider now available s =
     (let filtered = priorityFiltered available;
          load = loadByAuthID provider now (bindings s)
      in case pickRendezvous sessionKey (loadFiltered load filtered) of
           None \<Rightarrow> (Inl \<lparr>Code = ''auth_not_found'', Message = ''no auth available''\<rparr>, s)
         | Some selected \<Rightarrow>
             (Inr selected,
              s\<lparr>bindings := AList.update bindingKey (freshBinding (ID selected) now) (bindings s)\<rparr>))"

text \<open>
  \<open>Pick\<close>. \<open>getAvailableAuths\<close> and the round-robin selector's \<open>Pick\<close> are declared
  in other files of the package and are arguments here, as is the JSON reader.
\<close>

definition Pick :: "(string \<Rightarrow> string \<Rightarrow> string)
    \<Rightarrow> (Auth option list \<Rightarrow> string \<Rightarrow> string \<Rightarrow> time \<Rightarrow> Error + Auth option list)
    \<Rightarrow> ('rr \<Rightarrow> string \<Rightarrow> string \<Rightarrow> Options \<Rightarrow> Auth option list \<Rightarrow> (Error + Auth) \<times> 'rr)
    \<Rightarrow> time \<Rightarrow> string \<Rightarrow> string \<Rightarrow> Options \<Rightarrow> Auth option list
    \<Rightarrow> 'rr StickySelector \<Rightarrow> (Error + Auth) \<times> 'rr StickySelector" where
  "Pick gjson getAvailableAuths rrPick now provider model opts auths s =
     (case getAvailableAuths auths provider model now of
        Inl err \<Rightarrow> (Inl err, s)
      | Inr available \<Rightarrow>
          (let sessionKey = extractStickySessionKey gjson opts
           in if sessionKey = []
              then (case rrPick (rr s) provider model opts auths of (r, rr') \<Rightarrow> (r, s\<lparr>rr := rr'\<rparr>))
              else
                (let bindingKey = provider @ '':'' @ sessionKey;
                     s1 = gcIfDue now s
                 in case map_of (bindings s1) bindingKey of
                      None \<Rightarrow> bindNew sessionKey bindingKey provider now available s1
                    | Some existing \<Rightarrow>
                        if authID existing \<noteq> [] \<and> time_Before now (expiresAt existing)
                        then (case find (\<lambda>candidate. case candidate of None \<Rightarrow> False
                                           | Some c \<Rightarrow> ID c = authID existing) available of
                                Some (Some c) \<Rightarrow>
                                  (Inr c,
                                   s1\<lparr>bindings := AList.update bindingKey (freshBinding (ID c) now)
                                        (bindings s1)\<rparr>)
                              | _ \<Rightarrow> bindNew sessionKey bindingKey provider now available s1)
                        else bindNew sessionKey bindingKey provider now available
                               (s1\<lparr>bindings := AList.delete bindingKey (bindings s1)\<rparr>))))"

text \<open>
  Modelled from the spec: \<open>getAvailableAuths\<close>, which is declared in another file of the package.
  The specification's step 1 keeps the candidates with status Active that are not
  disabled and that neither the global quota nor the state of the model forbids at the
  time \<open>now\<close>, and fails with \<open>auth_not_found\<close> when none remains. A quota forbids
  selection while it is exceeded and its recovery time is still ahead. A record is
  cooled off for a model while the model is marked unavailable or its quota exceeded, and
  it must not be selected until the earlier of \<open>nextRetryAfter\<close> and the quota's
  \<open>nextRecoverAt\<close> has elapsed; a time that is not set (the zero time) does not enter
  that minimum, so that a model marked unavailable with a retry time only is forbidden
  until that time.
\<close>

definition quotaForbids :: "time \<Rightarrow> QuotaState \<Rightarrow> bool" where
  "quotaForbids now q \<longleftrightarrow> Exceeded q \<and> now < NextRecoverAt q"

definition cooldownEnd :: "ModelState \<Rightarrow> time" where
  "cooldownEnd m =
     (if time_IsZero (NextRecoverAt (ModelQuota m)) then NextRetryAfter m
      else if time_IsZero (NextRetryAfter m) then NextRecoverAt (ModelQuota m)
      else min (NextRetryAfter m) (NextRecoverAt (ModelQuota m)))"

definition modelForbids :: "time \<Rightarrow> ModelState \<Rightarrow> bool" where
  "modelForbids now m \<longleftrightarrow>
     (Unavailable m \<or> Exceeded (ModelQuota m)) \<and> now < cooldownEnd m"

definition eligible :: "string \<Rightarrow> time \<Rightarrow> Auth option \<Rightarrow> bool" where
  "eligible model now candidate =
     (case candidate of
        None \<Rightarrow> False
      | Some a \<Rightarrow>
          Status a = StatusActive \<and> \<not> Disabled a \<and> \<not> quotaForbids now (Quota a)
          \<and> (case map_of (ModelStates a) model of None \<Rightarrow> True | Some m \<Rightarrow> \<not> modelForbids now m))"

definition getAvailableAuths :: "Auth option list \<Rightarrow> string \<Rightarrow> string \<Rightarrow> time \<Rightarrow> Error + Auth option list" where
  "getAvailableAuths auths provider model now =
     (let available = filter (eligible model now) auths
      in if available = [] then Inl \<lparr>Code = ''auth_not_found'', Message = ''no auth available''\<rparr>
         else Inr available)"

section \<open>OAuth callback input\<close>

text \<open>
  \<open>url.Values\<close> maps a key to its values; \<open>Get\<close> returns the first one, or the empty
  string. \<open>url.Parse\<close> and \<open>url.ParseQuery\<close> are library functions and arguments of
  the parser: \<open>url_Parse\<close> returns the text of its error or the parts of the URL that
  the parser reads, \<open>url_ParseQuery\<close> returns the values it found and the text of its
  error, if any (\<open>URL.Query()\<close> drops that error). An error of the callback parser is
  one of its six messages; two of them wrap a library error.
\<close>

type_synonym Values = "(string \<times> string list) list"

definition Values_all :: "Values \<Rightarrow> string \<Rightarrow> string list" where
  "Values_all v key = (case map_of v key of None \<Rightarrow> [] | Some vs \<Rightarrow> vs)"

definition Values_Get :: "Values \<Rightarrow> string \<Rightarrow> string" where
  "Values_Get v key =
     (case map_of v key of None \<Rightarrow> [] | Some vs \<Rightarrow> (case vs of [] \<Rightarrow> [] | x # _ \<Rightarrow> x))"

record URL =
  Scheme :: string
  Host :: string
  Path :: string
  RawQuery :: string

datatype callbackError =
    EmptyCallbackInput
  | InvalidCallbackURL string
  | MissingCode
  | MissingState
  | InvalidCallbackQuery string
  | StateMismatch

record AuthCallback =
  cbCode :: string
  cbState :: string
  cbError :: string

definition parseOAuthCallbackInput :: "(string \<Rightarrow> string + URL) \<Rightarrow> (string \<Rightarrow> Values \<times> string option)
    \<Rightarrow> string \<Rightarrow> callbackError + (string \<times> string \<times> string \<times> string)" where
  "parseOAuthCallbackInput url_Parse url_ParseQuery raw =
     (let input = TrimSpace raw
      in if input = [] then Inl EmptyCallbackInput
         else if HasPrefix input ''http://'' \<or> HasPrefix input ''https://'' \<or> HasPrefix input ''kiro://''
         then (case url_Parse input of
                 Inl err \<Rightarrow> Inl (InvalidCallbackURL err)
               | Inr parsedURL \<Rightarrow>
                   (let query = fst (url_ParseQuery (RawQuery parsedURL));
                        code = Values_Get query ''code'';
                        state = Values_Get query ''state'';
                        errParam = Values_Get query ''error'';
                        redirectURI = Scheme parsedURL @ ''://'' @ Host parsedURL @ Path parsedURL
                    in if errParam \<noteq> [] then Inr ([], state, errParam, redirectURI)
                       else if code = [] then Inl MissingCode
                       else if state = [] then Inl MissingState
                       else Inr (code, state, errParam, redirectURI)))
         else (case url_ParseQuery input of
                 (values, Some err) \<Rightarrow> Inl (InvalidCallbackQuery err)
               | (values, None) \<Rightarrow>
                   (let code = Values_Get values ''code'';
                        state = Values_Get values ''state'';
                        errParam = Values_Get values ''error''
                    in if errParam \<noteq> [] then Inr ([], state, errParam, [])
                       else if code = [] then Inl MissingCode
                       else if state = [] then Inl MissingState
                       else Inr (code, state, errParam, []))))"

definition parseAndValidateCallbackInput :: "(string \<Rightarrow> string + URL) \<Rightarrow> (string \<Rightarrow> Values \<times> string option)
    \<Rightarrow> string \<Rightarrow> string \<Rightarrow> callbackError + (AuthCallback \<times> string)" where
  "parseAndValidateCallbackInput url_Parse url_ParseQuery expectedState raw =
     (case parseOAuthCallbackInput url_Parse url_ParseQuery raw of
        Inl err \<Rightarrow> Inl err
      | Inr (code, state, errParam, redirectURI) \<Rightarrow>
          if expectedState \<noteq> [] \<and> state \<noteq> [] \<and> state \<noteq> expectedState then Inl StateMismatch
          else Inr (\<lparr>cbCode = code, cbState = state, cbError = errParam\<rparr>, redirectURI))"

text \<open>
  \<open>url.ParseQuery\<close> as the library documents it, for the closed examples below: the
  query is cut at every \<open>&\<close>, a part with a semicolon is an error, an empty part is
  skipped, each other part is cut at its first \<open>=\<close>, and key and value are unescaped
  (\<open>%XX\<close> is the byte XX, \<open>+\<close> is a space); the first error is kept and later parts are
  still read.
\<close>

definition unhex :: "char \<Rightarrow> nat option" where
  "unhex c =
     (if isDigit c then Some (of_char c - 48)
      else if 97 \<le> (of_char c :: nat) \<and> (of_char c :: nat) \<le> 102 then Some (of_char c - 87)
      else if 65 \<le> (of_char c :: nat) \<and> (of_char c :: nat) \<le> 70 then Some (of_char c - 55)
      else None)"

fun QueryUnescape :: "string \<Rightarrow> string option" where
  "QueryUnescape [] = Some []"
| "QueryUnescape (c # cs) =
     (if c = CHR ''%''
      then (case cs of
              h1 # h2 # rest \<Rightarrow>
                (case (unhex h1, unhex h2, QueryUnescape rest) of
                   (Some a, Some b, Some r) \<Rightarrow> Some (char_of (16 * a + b) # r)
                 | _ \<Rightarrow> None)
            | _ \<Rightarrow> None)
      else (case QueryUnescape cs of
              Some r \<Rightarrow> Some ((if c = CHR ''+'' then CHR '' '' else c) # r)
            | None \<Rightarrow> None))"

fun splitAmp :: "string \<Rightarrow> string \<Rightarrow> string list" where
  "splitAmp acc [] = [rev acc]"
| "splitAmp acc (c # cs) = (if c = CHR ''&'' then rev acc # splitAmp [] cs else splitAmp (c # acc) cs)"

definition parseQueryPart :: "Values \<times> string option \<Rightarrow> string \<Rightarrow> Values \<times> string option" where
  "parseQueryPart st part =
     (if CHR '';'' \<in> set part then (fst st, Some ''invalid semicolon separator in query'')
      else if part = [] then st
      else (case (QueryUnescape (takeWhile (\<lambda>c. c \<noteq> CHR ''='') part),
                  QueryUnescape (drop 1 (dropWhile (\<lambda>c. c \<noteq> CHR ''='') part))) of
              (Some key, Some v) \<Rightarrow>
                (AList.update key (Values_all (fst st) key @ [v]) (fst st), snd st)
            | _ \<Rightarrow> (fst st, (case snd st of None \<Rightarrow> Some ''invalid URL escape'' | Some e \<Rightarrow> Some e))))"

definition url_ParseQuery_model :: "string \<Rightarrow> Values \<times> string option" where
  "url_ParseQuery_model query = foldl parseQueryPart ([], None) (splitAmp [] query)"

section \<open>Codex quota snapshots\<close>

text \<open>
  A pointer field of the snapshot is an option. \<open>strconv.ParseFloat\<close> is a library
  function over floating-point numbers and an argument of the parser. The registry
  \<open>codexQuotaByAuth\<close> is an association list from credential ids to snapshots.
\<close>

record CodexQuotaSnapshot =
  PlanType :: string
  PrimaryUsedPercent :: "float option"
  PrimaryResetAfterSeconds :: "go_int option"
  PrimaryWindowMinutes :: "go_int option"
  SecondaryUsedPercent :: "float option"
  SecondaryResetAfterSeconds :: "go_int option"
  SecondaryWindowMinutes :: "go_int option"
  PrimaryOverSecondaryPercent :: "float option"
  PrimaryResetAtSeconds :: "64 word option"
  SecondaryResetAtSeconds :: "64 word option"
  CreditsHasCredits :: "bool option"
  CreditsBalance :: "string option"
  CreditsUnlimited :: "bool option"
  UpdatedAt :: time

definition parseFloatHeader :: "(string \<Rightarrow> float option) \<Rightarrow> Header \<Rightarrow> string \<Rightarrow> float option" where
  "parseFloatHeader ParseFloat headers key =
     (let v = Header_Get headers key in if v \<noteq> [] then ParseFloat v else None)"

definition parseIntHeader :: "Header \<Rightarrow> string \<Rightarrow> go_int option" where
  "parseIntHeader headers key =
     (let v = Header_Get headers key in if v \<noteq> [] then Atoi v else None)"

definition parseBoolHeader :: "Header \<Rightarrow> string \<Rightarrow> bool option" where
  "parseBoolHeader headers key =
     (let v = TrimSpace (Header_Get headers key)
      in if v \<noteq> []
         then (if ToLower v \<in> set [''true'', ''1'', ''yes''] then Some True
               else if ToLower v \<in> set [''false'', ''0'', ''no''] then Some False
               else None)
         else None)"

definition parseStringHeader :: "Header \<Rightarrow> string \<Rightarrow> string option" where
  "parseStringHeader headers key =
     (let v = Header_Get headers key in if v \<noteq> [] then Some v else None)"

definition ParseCodexQuotaSnapshot :: "(string \<Rightarrow> float option) \<Rightarrow> time \<Rightarrow> Header
    \<Rightarrow> CodexQuotaSnapshot option" where
  "ParseCodexQuotaSnapshot ParseFloat now headers =
     (let snapshot =
            \<lparr>PlanType = TrimSpace (Header_Get headers ''x-codex-plan-type''),
             PrimaryUsedPercent = parseFloatHeader ParseFloat headers ''x-codex-primary-used-percent'',
             PrimaryResetAfterSeconds = parseIntHeader headers ''x-codex-primary-reset-after-seconds'',
             PrimaryWindowMinutes = parseIntHeader headers ''x-codex-primary-window-minutes'',
             SecondaryUsedPercent = parseFloatHeader ParseFloat headers ''x-codex-secondary-used-percent'',
             SecondaryResetAfterSeconds = parseIntHeader headers ''x-codex-secondary-reset-after-seconds'',
             SecondaryWindowMinutes = parseIntHeader headers ''x-codex-secondary-window-minutes'',
             PrimaryOverSecondaryPercent =
               parseFloatHeader ParseFloat headers ''x-codex-primary-over-secondary-limit-percent'',
             PrimaryResetAtSeconds = parseIntHeader headers ''x-codex-primary-reset-at'',
             SecondaryResetAtSeconds = parseIntHeader headers ''x-codex-secondary-reset-at'',
             CreditsHasCredits = parseBoolHeader headers ''x-codex-credits-has-credits'',
             CreditsBalance = parseStringHeader headers ''x-codex-credits-balance'',
             CreditsUnlimited = parseBoolHeader headers ''x-codex-credits-unlimited'',
             UpdatedAt = 0\<rparr>;
          hasData =
            (PlanType snapshot \<noteq> [] \<or> PrimaryUsedPercent snapshot \<noteq> None
             \<or> PrimaryResetAfterSeconds snapshot \<noteq> None \<or> PrimaryWindowMinutes snapshot \<noteq> None
             \<or> SecondaryUsedPercent snapshot \<noteq> None \<or> SecondaryResetAfterSeconds snapshot \<noteq> None
             \<or> SecondaryWindowMinutes snapshot \<noteq> None \<or> PrimaryOverSecondaryPercent snapshot \<noteq> None
             \<or> PrimaryResetAtSeconds snapshot \<noteq> None \<or> SecondaryResetAtSeconds snapshot \<noteq> None
             \<or> CreditsHasCredits snapshot \<noteq> None \<or> CreditsBalance snapshot \<noteq> None
             \<or> CreditsUnlimited snapshot \<noteq> None)
      in if \<not> hasData then None else Some (snapshot\<lparr>UpdatedAt := now\<rparr>))"

type_synonym codexQuotaByAuth = "(string \<times> CodexQuotaSnapshot) list"

definition UpdateCodexQuotaSnapshot :: "codexQuotaByAuth \<Rightarrow> string \<Rightarrow> CodexQuotaSnapshot option
    \<Rightarrow> codexQuotaByAuth" where
  "UpdateCodexQuotaSnapshot store aid snapshot =
     (case snapshot of
        None \<Rightarrow> store
      | Some snap \<Rightarrow> if aid = [] then store else AList.update aid snap store)"

definition DeleteCodexQuotaSnapshot :: "codexQuotaByAuth \<Rightarrow> string \<Rightarrow> codexQuotaByAuth" where
  "DeleteCodexQuotaSnapshot store aid = (if aid = [] then store else AList.delete aid store)"

definition GetCodexQuotaSnapshot :: "codexQuotaByAuth \<Rightarrow> string \<Rightarrow> CodexQuotaSnapshot option" where
  "GetCodexQuotaSnapshot store aid = (if aid = [] then None else map_of store aid)"

section \<open>Notions used to state the properties\<close>

text \<open>
  \<open>sha256_16\<close> is the specification's name for the hex of the first 16 bytes of SHA-256.
  \<open>sessionKey_spec\<close> follows the words of the specification's step 2: the priority
  order of the session key over the six values read from the request.
\<close>

definition sha256_16 :: "string \<Rightarrow> string" where
  "sha256_16 x = hex_EncodeToString (take 16 (sha256_Sum256 x))"

definition sessionKey_spec :: "string \<Rightarrow> string option \<Rightarrow> string \<Rightarrow> string \<Rightarrow> string \<Rightarrow> string \<Rightarrow> string" where
  "sessionKey_spec sessionId claudeUuid bearer xApiKey xGoogApiKey userAgent =
     (if sessionId \<noteq> [] then ''codex:'' @ sha256_16 sessionId
      else (case claudeUuid of
              Some uuid \<Rightarrow> ''claude:'' @ uuid
            | None \<Rightarrow>
                if bearer \<noteq> [] then ''apikey:'' @ sha256_16 bearer
                else if xApiKey \<noteq> [] then ''apikey:'' @ sha256_16 xApiKey
                else if xGoogApiKey \<noteq> [] then ''apikey:'' @ sha256_16 xGoogApiKey
                else if userAgent \<noteq> [] then ''ua:'' @ sha256_16 userAgent
                else []))"

text \<open>
  \<open>beats k c b\<close>: under the session key \<open>k\<close> the credential id \<open>c\<close> wins against \<open>b\<close>,
  by the higher rendezvous score and, at equal scores, by the smaller id.
  \<open>rendezvousInv\<close> is the invariant of the loop of \<open>pickRendezvous\<close>.
\<close>

definition beats :: "string \<Rightarrow> string \<Rightarrow> string \<Rightarrow> bool" where
  "beats sessionKey c b \<longleftrightarrow>
     rendezvousScore sessionKey b < rendezvousScore sessionKey c
     \<or> (rendezvousScore sessionKey c = rendezvousScore sessionKey b \<and> c < b)"

definition rendezvousInv :: "string \<Rightarrow> Auth option list \<Rightarrow> Auth option \<times> 64 word \<Rightarrow> bool" where
  "rendezvousInv k xs st =
     (case fst st of
        None \<Rightarrow> (\<forall>c. Some c \<in> set xs \<longrightarrow> ID c = [])
      | Some b \<Rightarrow> Some b \<in> set xs \<and> ID b \<noteq> [] \<and> snd st = rendezvousScore k (ID b)
          \<and> (\<forall>c. Some c \<in> set xs \<and> ID c \<noteq> [] \<longrightarrow> \<not> beats k (ID c) (ID b))
          \<and> (\<forall>c. Some c \<in> set (takeWhile (\<lambda>x. x \<noteq> Some b) xs) \<longrightarrow> ID c \<noteq> ID b))"

text \<open>The ids of the records in a candidate list (nil entries left out).\<close>

definition candidateIDs :: "Auth option list \<Rightarrow> string list" where
  "candidateIDs av = concat (map (\<lambda>candidate. case candidate of None \<Rightarrow> [] | Some c \<Rightarrow> [ID c]) av)"



text \<open>
  The fixtures of the selector's tests, for the closed examples: an active record of the
  provider \<open>codex\<close> with a given id, metadata and model states; a request with the header
  \<open>session_id: s123\<close> and the body \<open>{}\<close>; the JSON reader on a body that has no
  \<open>metadata.user_id\<close>; a round-robin selector that is never reached by a request with
  a session key; and the session key of the request.
\<close>

definition testAuth :: "string \<Rightarrow> (string \<times> any) list \<Rightarrow> (string \<times> ModelState) list \<Rightarrow> Auth" where
  "testAuth aid metadata modelStates =
     \<lparr>ID = aid, Provider = ''codex'', Status = StatusActive, Disabled = False, Metadata = metadata,
      Attributes = [], Quota = \<lparr>Exceeded = False, Reason = [], NextRecoverAt = 0, BackoffLevel = 0\<rparr>,
      ModelStates = modelStates\<rparr>"

definition testOpts :: Options where
  "testOpts = \<lparr>Headers = [(''Session_id'', [''s123''])], OriginalRequest = ''{}''\<rparr>"

definition noUserID :: "string \<Rightarrow> string \<Rightarrow> string" where
  "noUserID body path = []"

definition noRoundRobin :: "unit \<Rightarrow> string \<Rightarrow> string \<Rightarrow> Options \<Rightarrow> Auth option list \<Rightarrow> (Error + Auth) \<times> unit" where
  "noRoundRobin r provider model opts auths = (Inl \<lparr>Code = ''auth_not_found'', Message = []\<rparr>, r)"

definition testKey :: string where
  "testKey = ''codex:'' @ sha256_16 ''s123''"

section \<open>Auxiliary lemmas\<close>

subsection \<open>Trimming and hashing\<close>

lemma trimLeft_suffix: "\<exists>n. trimLeft runes s = drop n s"
proof (induction runes s rule: trimLeft.induct)
  case (1 runes s)
  show ?case
  proof (cases "leadingSpace runes s = 0")
    case True
    then have "trimLeft runes s = drop 0 s" by simp
    then show ?thesis by blast
  next
    case False
    with "1.IH" obtain n where "trimLeft runes (drop (leadingSpace runes s) s) = drop n (drop (leadingSpace runes s) s)"
      by blast
    with False have "trimLeft runes s = drop (n + leadingSpace runes s) s"
      by (simp add: add.commute)
    then show ?thesis by blast
  qed
qed

lemma trimLeft_fixed: "leadingSpace runes (trimLeft runes s) = 0"
proof (induction runes s rule: trimLeft.induct)
  case (1 runes s)
  then show ?case by (cases "leadingSpace runes s = 0") simp_all
qed

lemma leadingSpace_take:
  assumes "leadingSpace runes s = 0"
  shows "leadingSpace runes (take n s) = 0"
proof (rule ccontr)
  assume "leadingSpace runes (take n s) \<noteq> 0"
  then obtain r where r: "find (\<lambda>r. r \<noteq> [] \<and> HasPrefix (take n s) r) runes = Some r"
    by (auto simp: leadingSpace_def split: option.splits)
  then have rr: "r \<in> set runes" "r \<noteq> []" "HasPrefix (take n s) r"
    by (auto simp: find_Some_iff in_set_conv_nth)
  from rr(3) have "length r \<le> n" "length r \<le> length s"
    by (metis HasPrefix_def length_take min.cobounded1 min.cobounded2 min.absorb_iff2 min.boundedE)+
  with rr(3) have "HasPrefix s r"
    by (simp add: HasPrefix_def min_def take_take split: if_splits)
  with rr(1,2) have "find (\<lambda>r. r \<noteq> [] \<and> HasPrefix s r) runes \<noteq> None"
    by (auto simp: find_None_iff)
  then obtain r' where r': "find (\<lambda>r. r \<noteq> [] \<and> HasPrefix s r) runes = Some r'" by blast
  then have "r' \<noteq> []" by (auto simp: find_Some_iff)
  with r' assms show False by (simp add: leadingSpace_def)
qed

lemma TrimSpace_idem: "TrimSpace (TrimSpace s) = TrimSpace s"
proof -
  define t where "t = trimLeft spaceRunes s"
  define u where "u = trimLeft (map rev spaceRunes) (rev t)"
  obtain n where n: "u = drop n (rev t)" unfolding u_def using trimLeft_suffix by blast
  have ts: "TrimSpace s = rev u" by (simp add: TrimSpace_def t_def u_def)
  have "rev u = take (length t - n) t" by (simp add: n rev_drop)
  moreover have "leadingSpace spaceRunes t = 0" unfolding t_def by (rule trimLeft_fixed)
  ultimately have "leadingSpace spaceRunes (rev u) = 0" by (simp add: leadingSpace_take)
  then have 1: "trimLeft spaceRunes (rev u) = rev u" by simp
  have "leadingSpace (map rev spaceRunes) u = 0" unfolding u_def by (rule trimLeft_fixed)
  then have 2: "trimLeft (map rev spaceRunes) u = u" by simp
  show ?thesis unfolding ts by (simp add: TrimSpace_def 1 2 del: trimLeft.simps)
qed

lemma length_sha256_round: "length (sha256_round v x) = length v"
  by (induction v x rule: sha256_round.induct) (simp_all add: Let_def)

lemma length_foldl_round: "length (foldl sha256_round v xs) = length v"
  by (induction xs arbitrary: v) (simp_all add: length_sha256_round)

lemma length_sha256_block: "length (sha256_block hs blk) = length hs"
  by (simp add: sha256_block_def Let_def length_foldl_round)

lemma length_foldl_block: "length (foldl sha256_block hs bs) = length hs"
  by (induction bs arbitrary: hs) (simp_all add: length_sha256_block)

lemma length_concat_be: "length (concat (map (\<lambda>x. be_bytes 4 (f x)) hs)) = 4 * length hs"
  by (induction hs) (simp_all add: be_bytes_def)

lemma length_sha256_Sum256: "length (sha256_Sum256 m) = 32"
  by (simp add: sha256_Sum256_def Let_def length_concat_be length_foldl_block sha256_init_def)

lemma length_hex: "length (hex_EncodeToString bs) = 2 * length bs"
  by (induction bs) (simp_all add: hex_EncodeToString_def)

lemma length_sha256_16: "length (sha256_16 x) = 32"
  by (simp add: sha256_16_def length_hex length_sha256_Sum256)

lemma sha256_16_nonempty: "sha256_16 x \<noteq> []"
  using length_sha256_16 [of x] by auto

lemma stableHash_TrimSpace: "TrimSpace x \<noteq> [] \<Longrightarrow> stableHash (TrimSpace x) = sha256_16 (TrimSpace x)"
  by (simp add: stableHash_def sha256_16_def TrimSpace_idem)

lemma extractBearerToken_trimmed: "\<exists>z. extractBearerToken h = TrimSpace z"
proof -
  have "TrimSpace h = [] \<Longrightarrow> [] = TrimSpace h" by simp
  then show ?thesis
    unfolding extractBearerToken_def Let_def
    by (metis TrimSpace_idem)
qed

lemma stableHash_token: "extractBearerToken h \<noteq> [] \<Longrightarrow> stableHash (extractBearerToken h) = sha256_16 (extractBearerToken h)"
proof -
  assume ne: "extractBearerToken h \<noteq> []"
  obtain z where z: "extractBearerToken h = TrimSpace z" using extractBearerToken_trimmed by blast
  with ne show ?thesis by (simp add: stableHash_TrimSpace)
qed

lemma extractStickySessionKey_refines:
  "extractStickySessionKey gjson opts =
     sessionKey_spec
       (TrimSpace (Header_Get (Headers opts) ''session_id''))
       (if OriginalRequest opts \<noteq> []
        then claudeSessionRegex_Find (ToLower (TrimSpace (gjson (OriginalRequest opts) ''metadata.user_id'')))
        else None)
       (extractBearerToken (Header_Get (Headers opts) ''authorization''))
       (TrimSpace (Header_Get (Headers opts) ''x-api-key''))
       (TrimSpace (Header_Get (Headers opts) ''x-goog-api-key''))
       (TrimSpace (Header_Get (Headers opts) ''user-agent''))"
proof -
  have h: "\<And>x. TrimSpace x \<noteq> [] \<Longrightarrow> stableHash (TrimSpace x) \<noteq> []"
    by (simp add: stableHash_TrimSpace sha256_16_nonempty)
  have t: "\<And>x. extractBearerToken x \<noteq> [] \<Longrightarrow> stableHash (extractBearerToken x) \<noteq> []"
    by (simp add: stableHash_token sha256_16_nonempty)
  have e: "claudeSessionRegex_Find (ToLower []) = None" by simp
  show ?thesis
    unfolding extractStickySessionKey_def sessionKey_spec_def Let_def
    using h t e
    by (auto simp: stableHash_TrimSpace stableHash_token split: option.splits
             simp del: ToLower.simps claudeSessionRegex_Find.simps)
qed

subsection \<open>Garbage collection and the frame of \<open>Pick\<close>\<close>

lemma map_of_filter_distinct:
  "distinct (map fst al) \<Longrightarrow>
   map_of (filter (\<lambda>(k, v). P v) al) k =
     (case map_of al k of None \<Rightarrow> None | Some v \<Rightarrow> if P v then Some v else None)"
proof (induction al)
  case Nil
  then show ?case by simp
next
  case (Cons kv al)
  obtain k' v' where kv: "kv = (k', v')" by (cases kv)
  from Cons.prems kv have notin: "k' \<notin> fst ` set al" and d: "distinct (map fst al)" by auto
  from notin have none: "map_of al k' = None" by (simp add: map_of_eq_None_iff)
  show ?case using Cons.IH [OF d] none by (auto simp: kv split: option.splits)
qed

lemma gcLocked_lookup:
  assumes "distinct (map fst (bindings s))"
  shows "map_of (bindings (gcLocked now s)) k =
           (case map_of (bindings s) k of
              None \<Rightarrow> None
            | Some v \<Rightarrow> if authID v = [] \<or> expiresAt v < now then None else Some v)"
proof (cases "bindings s = []")
  case True
  then show ?thesis by (simp add: gcLocked_def)
next
  case False
  then have "bindings (gcLocked now s) =
      filter (\<lambda>(k, v). \<not> (authID v = [] \<or> expiresAt v < now)) (bindings s)"
    by (simp add: gcLocked_def time_After_def)
  then show ?thesis
    using map_of_filter_distinct [OF assms, of "\<lambda>v. \<not> (authID v = [] \<or> expiresAt v < now)" k]
    by (auto split: option.splits)
qed

lemma time_Sub_ge: "minDuration < d \<Longrightarrow> d \<le> maxDuration \<Longrightarrow> (d \<le> time_Sub t u) = (d \<le> t - u)"
  by (auto simp: time_Sub_def Let_def maxDuration_def minDuration_def)

lemma bindNew_other:
  "k \<noteq> bindingKey \<Longrightarrow>
   map_of (bindings (snd (bindNew sessionKey bindingKey provider now available s))) k = map_of (bindings s) k"
  by (auto simp: bindNew_def Let_def update_conv' split: option.splits)

lemma Pick_other_bindings:
  assumes d: "distinct (map fst (bindings s))"
    and av: "gaa auths provider model now = Inr available"
    and key: "extractStickySessionKey gjson opts \<noteq> []"
    and other: "k \<noteq> provider @ '':'' @ extractStickySessionKey gjson opts"
  shows "map_of (bindings (snd (Pick gjson gaa rrPick now provider model opts auths s))) k =
           (if stickyGCMinEntries \<le> length (bindings s) \<or> lastGC s = 0
               \<or> stickyGCInterval \<le> now - lastGC s
            then (case map_of (bindings s) k of
                    None \<Rightarrow> None
                  | Some v \<Rightarrow> if authID v = [] \<or> expiresAt v < now then None else Some v)
            else map_of (bindings s) k)"
proof -
  define s1 where "s1 = gcIfDue now s"
  have iv: "minDuration < stickyGCInterval" "stickyGCInterval \<le> maxDuration"
    by (simp_all add: stickyGCInterval_def maxDuration_def minDuration_def time_Minute_def)
  have s1: "map_of (bindings s1) k =
           (if stickyGCMinEntries \<le> length (bindings s) \<or> lastGC s = 0
               \<or> stickyGCInterval \<le> now - lastGC s
            then (case map_of (bindings s) k of
                    None \<Rightarrow> None
                  | Some v \<Rightarrow> if authID v = [] \<or> expiresAt v < now then None else Some v)
            else map_of (bindings s) k)"
  proof (cases "bindings s = []")
    case True
    then show ?thesis by (simp add: s1_def gcIfDue_def)
  next
    case False
    then show ?thesis
      by (simp add: s1_def gcIfDue_def gcLocked_lookup [OF d] time_IsZero_def time_Sub_ge [OF iv])
  qed
  have "map_of (bindings (snd (Pick gjson gaa rrPick now provider model opts auths s))) k
      = map_of (bindings s1) k"
    using av key other
    unfolding Pick_def s1_def [symmetric] Let_def
    by (auto simp: bindNew_other update_conv' delete_conv' split: option.splits)
  with s1 show ?thesis by simp
qed

subsection \<open>The rendezvous loop\<close>

lemma beats_irrefl: "\<not> beats k c c"
  by (simp add: beats_def)

lemma beats_trans: "beats k a b \<Longrightarrow> beats k b c \<Longrightarrow> beats k a c"
  by (auto simp: beats_def)

lemma beats_total: "\<not> beats k a b \<Longrightarrow> \<not> beats k b a \<Longrightarrow> a = b"
  by (auto simp: beats_def)

lemma pickRendezvous_step_beats:
  "pickRendezvous_step k (Some b, rendezvousScore k (ID b)) (Some c) =
     (if ID c = [] then (Some b, rendezvousScore k (ID b))
      else if beats k (ID c) (ID b) then (Some c, rendezvousScore k (ID c))
      else (Some b, rendezvousScore k (ID b)))"
  by (auto simp: pickRendezvous_step_def beats_def Let_def)

lemma rendezvousInv_foldl: "rendezvousInv k xs (foldl (pickRendezvous_step k) (None, 0) xs)"
proof (induction xs rule: rev_induct)
  case Nil
  then show ?case by (simp add: rendezvousInv_def)
next
  case (snoc x xs)
  define st where "st = foldl (pickRendezvous_step k) (None, 0) xs"
  have inv: "rendezvousInv k xs st" unfolding st_def by (rule snoc.IH)
  have fold: "foldl (pickRendezvous_step k) (None, 0) (xs @ [x]) = pickRendezvous_step k st x"
    by (simp add: st_def)
  show ?case
  proof (cases x)
    case None
    then have "pickRendezvous_step k st x = st" by (simp add: pickRendezvous_step_def)
    with inv None show ?thesis
      unfolding fold by (auto simp: rendezvousInv_def split: option.splits)
  next
    case (Some c)
    show ?thesis
    proof (cases "ID c = []")
      case True
      with Some have "pickRendezvous_step k st x = st" by (simp add: pickRendezvous_step_def)
      with inv Some True show ?thesis
        unfolding fold by (auto simp: rendezvousInv_def split: option.splits)
    next
      case False
      show ?thesis
      proof (cases "fst st")
        case None
        with Some False have "pickRendezvous_step k st x = (Some c, rendezvousScore k (ID c))"
          by (simp add: pickRendezvous_step_def Let_def)
        moreover from inv None have "\<forall>c'. Some c' \<in> set xs \<longrightarrow> ID c' = []"
          by (simp add: rendezvousInv_def)
        ultimately show ?thesis
          unfolding fold using Some False
          by (auto simp: rendezvousInv_def beats_irrefl takeWhile_append)
      next
        case (Some b)
        with inv have b: "Some b \<in> set xs" "ID b \<noteq> []" "snd st = rendezvousScore k (ID b)"
          and mx: "\<forall>c'. Some c' \<in> set xs \<and> ID c' \<noteq> [] \<longrightarrow> \<not> beats k (ID c') (ID b)"
          and fst: "\<forall>c'. Some c' \<in> set (takeWhile (\<lambda>x. x \<noteq> Some b) xs) \<longrightarrow> ID c' \<noteq> ID b"
          by (simp_all add: rendezvousInv_def)
        from Some b(3) have st: "st = (Some b, rendezvousScore k (ID b))"
          by (cases st) simp
        show ?thesis
        proof (cases "beats k (ID c) (ID b)")
          case True
          then have step: "pickRendezvous_step k st x = (Some c, rendezvousScore k (ID c))"
            using \<open>x = Some c\<close> False by (simp add: st pickRendezvous_step_beats)
          have "\<forall>c'. Some c' \<in> set xs \<and> ID c' \<noteq> [] \<longrightarrow> \<not> beats k (ID c') (ID c)"
            using mx True beats_trans by blast
          moreover have "\<forall>c'. Some c' \<in> set xs \<longrightarrow> ID c' \<noteq> ID c"
          proof (intro allI impI)
            fix c' assume c': "Some c' \<in> set xs"
            show "ID c' \<noteq> ID c"
            proof
              assume e: "ID c' = ID c"
              with False c' mx have "\<not> beats k (ID c) (ID b)" by metis
              with True show False by simp
            qed
          qed
          ultimately show ?thesis
            unfolding fold step using \<open>x = Some c\<close> False
            by (auto simp: rendezvousInv_def beats_irrefl takeWhile_append dest: set_takeWhileD)
        next
          case nb: False
          then have step: "pickRendezvous_step k st x = st"
            using \<open>x = Some c\<close> False by (simp add: st pickRendezvous_step_beats)
          have tw: "takeWhile (\<lambda>x. x \<noteq> Some b) (xs @ [x]) = takeWhile (\<lambda>x. x \<noteq> Some b) xs"
            using b(1) by (simp add: takeWhile_append1 [where x = "Some b"])
          show ?thesis
            unfolding fold step using \<open>x = Some c\<close> nb b mx fst
            by (auto simp: rendezvousInv_def st tw simp del: takeWhile_append)
        qed
      qed
    qed
  qed
qed

lemma pickRendezvous_Some:
  assumes "pickRendezvous k av = Some b"
  shows "k \<noteq> [] \<and> Some b \<in> set av \<and> ID b \<noteq> []
     \<and> (\<forall>c. Some c \<in> set av \<and> ID c \<noteq> [] \<longrightarrow> \<not> beats k (ID c) (ID b))"
proof -
  from assms have k: "k \<noteq> []" and f: "fst (foldl (pickRendezvous_step k) (None, 0) av) = Some b"
    by (auto simp: pickRendezvous_def split: if_splits)
  from rendezvousInv_foldl [of k av] f k show ?thesis
    by (simp add: rendezvousInv_def)
qed

lemma pickRendezvous_None:
  assumes "pickRendezvous k av = None" and "k \<noteq> []"
  shows "\<forall>c. Some c \<in> set av \<longrightarrow> ID c = []"
proof (cases "av = []")
  case True
  then show ?thesis by simp
next
  case False
  with assms have f: "fst (foldl (pickRendezvous_step k) (None, 0) av) = None"
    by (simp add: pickRendezvous_def)
  from rendezvousInv_foldl [of k av] f show ?thesis
    by (simp add: rendezvousInv_def)
qed

lemma pickRendezvous_exists:
  assumes "k \<noteq> []" and "Some c \<in> set av" and "ID c \<noteq> []"
  shows "\<exists>b. pickRendezvous k av = Some b"
  using pickRendezvous_None [of k av] assms by (cases "pickRendezvous k av") auto

lemma not_beats_iff:
  "\<not> beats k c b \<longleftrightarrow>
     rendezvousScore k c < rendezvousScore k b \<or> (rendezvousScore k c = rendezvousScore k b \<and> b \<le> c)"
  by (auto simp: beats_def)

subsection \<open>The priority and load filters\<close>

lemma sint_MaxInt: "sint MaxInt = 2 ^ 63 - 1"
  by (simp add: MaxInt_def)

lemma sint_le_MaxInt: "sint (w :: go_int) \<le> sint MaxInt"
  using sint_lt [of w] by (simp add: sint_MaxInt)

lemma minPriority_foldl:
  "sint (foldl (\<lambda>m c. if authPriority c <s m then authPriority c else m) m0 av) \<le> sint m0
   \<and> (\<forall>c \<in> set av. sint (foldl (\<lambda>m c. if authPriority c <s m then authPriority c else m) m0 av)
         \<le> sint (authPriority c))
   \<and> (foldl (\<lambda>m c. if authPriority c <s m then authPriority c else m) m0 av = m0
       \<or> (\<exists>c \<in> set av. foldl (\<lambda>m c. if authPriority c <s m then authPriority c else m) m0 av
             = authPriority c))"
proof (induction av arbitrary: m0)
  case Nil
  then show ?case by simp
next
  case (Cons a av)
  let ?m1 = "if authPriority a <s m0 then authPriority a else m0"
  have m1: "sint ?m1 \<le> sint m0" "sint ?m1 \<le> sint (authPriority a)"
    by (auto simp: word_sless_alt)
  from Cons.IH [of ?m1] m1 show ?case
    by (auto simp: word_sless_alt)
qed

lemma minPriority_le: "c \<in> set av \<Longrightarrow> sint (minPriority av) \<le> sint (authPriority c)"
  using minPriority_foldl [of MaxInt av] by (simp add: minPriority_def)

lemma minPriority_attained:
  assumes "av \<noteq> []"
  shows "\<exists>c \<in> set av. authPriority c = minPriority av"
proof -
  from minPriority_foldl [of MaxInt av]
  have "minPriority av = MaxInt \<or> (\<exists>c \<in> set av. minPriority av = authPriority c)"
    by (simp add: minPriority_def)
  then show ?thesis
  proof
    assume mx: "minPriority av = MaxInt"
    from assms obtain c where c: "c \<in> set av" by (cases av) auto
    from minPriority_le [OF c] mx have "sint MaxInt \<le> sint (authPriority c)" by simp
    with sint_le_MaxInt [of "authPriority c"] have "sint (authPriority c) = sint MaxInt" by simp
    then have "authPriority c = MaxInt" by (rule signed_word_eqI)
    with c mx show ?thesis by auto
  next
    assume "\<exists>c \<in> set av. minPriority av = authPriority c"
    then show ?thesis by auto
  qed
qed

lemma priorityFiltered_set:
  "set (priorityFiltered av) = {c \<in> set av. authPriority c = minPriority av}"
  by (auto simp: priorityFiltered_def)

lemma minLoad_step_le: "minLoad_step load m a \<le> m"
  by (simp add: minLoad_step_def split: option.splits)

lemma minLoad_step_le_load: "ID c \<noteq> [] \<Longrightarrow> minLoad_step load m (Some c) \<le> load (ID c)"
  by (simp add: minLoad_step_def)

lemma minLoad_step_cases:
  "minLoad_step load m a = m \<or> (\<exists>c. a = Some c \<and> ID c \<noteq> [] \<and> minLoad_step load m a = load (ID c))"
  by (cases a) (simp_all add: minLoad_step_def)

lemma minLoad_foldl_le: "foldl (minLoad_step load) m0 fl \<le> m0"
proof (induction fl arbitrary: m0)
  case Nil
  then show ?case by simp
next
  case (Cons a fl)
  have "foldl (minLoad_step load) (minLoad_step load m0 a) fl \<le> minLoad_step load m0 a"
    by (rule Cons.IH)
  also have "\<dots> \<le> m0" by (rule minLoad_step_le)
  finally show ?case by simp
qed

lemma minLoad_foldl_le_load:
  "Some c \<in> set fl \<Longrightarrow> ID c \<noteq> [] \<Longrightarrow> foldl (minLoad_step load) m0 fl \<le> load (ID c)"
proof (induction fl arbitrary: m0)
  case Nil
  then show ?case by simp
next
  case (Cons a fl)
  show ?case
  proof (cases "a = Some c")
    case True
    have "foldl (minLoad_step load) (minLoad_step load m0 a) fl \<le> minLoad_step load m0 a"
      by (rule minLoad_foldl_le)
    also have "\<dots> \<le> load (ID c)" unfolding True using Cons.prems(2) by (rule minLoad_step_le_load)
    finally show ?thesis by simp
  next
    case False
    with Cons.prems have "Some c \<in> set fl" by simp
    from Cons.IH [OF this Cons.prems(2)] show ?thesis by simp
  qed
qed

lemma minLoad_foldl_cases:
  "foldl (minLoad_step load) m0 fl = m0
   \<or> (\<exists>c. Some c \<in> set fl \<and> ID c \<noteq> [] \<and> foldl (minLoad_step load) m0 fl = load (ID c))"
proof (induction fl arbitrary: m0)
  case Nil
  then show ?case by simp
next
  case (Cons a fl)
  from Cons.IH [of "minLoad_step load m0 a"]
  show ?case
  proof
    assume e: "foldl (minLoad_step load) (minLoad_step load m0 a) fl = minLoad_step load m0 a"
    from minLoad_step_cases [of load m0 a] show ?thesis
    proof
      assume "minLoad_step load m0 a = m0"
      with e show ?thesis by simp
    next
      assume "\<exists>c. a = Some c \<and> ID c \<noteq> [] \<and> minLoad_step load m0 a = load (ID c)"
      then obtain c where "a = Some c" "ID c \<noteq> []" "minLoad_step load m0 a = load (ID c)" by blast
      with e have "Some c \<in> set (a # fl) \<and> ID c \<noteq> [] \<and> foldl (minLoad_step load) m0 (a # fl) = load (ID c)"
        by simp
      then show ?thesis by blast
    qed
  next
    assume "\<exists>c. Some c \<in> set fl \<and> ID c \<noteq> [] \<and>
        foldl (minLoad_step load) (minLoad_step load m0 a) fl = load (ID c)"
    then obtain c where "Some c \<in> set fl" "ID c \<noteq> []"
        "foldl (minLoad_step load) (minLoad_step load m0 a) fl = load (ID c)" by blast
    then have "Some c \<in> set (a # fl) \<and> ID c \<noteq> [] \<and> foldl (minLoad_step load) m0 (a # fl) = load (ID c)"
      by simp
    then show ?thesis by blast
  qed
qed

lemma minLoad_alt: "minLoad load fl = foldl (minLoad_step load) (2 ^ 63 - 1) fl"
  by (simp add: minLoad_def)

lemma minLoad_le: "Some c \<in> set fl \<Longrightarrow> ID c \<noteq> [] \<Longrightarrow> minLoad load fl \<le> load (ID c)"
  by (simp add: minLoad_alt minLoad_foldl_le_load)

lemma minLoad_attained:
  assumes c: "Some c \<in> set fl" "ID c \<noteq> []"
    and bound: "\<forall>c. Some c \<in> set fl \<and> ID c \<noteq> [] \<longrightarrow> load (ID c) \<le> 2 ^ 63 - 1"
  shows "\<exists>c. Some c \<in> set fl \<and> ID c \<noteq> [] \<and> load (ID c) = minLoad load fl"
proof -
  from minLoad_foldl_cases [of load "2 ^ 63 - 1" fl]
  have "minLoad load fl = 2 ^ 63 - 1
      \<or> (\<exists>c. Some c \<in> set fl \<and> ID c \<noteq> [] \<and> minLoad load fl = load (ID c))"
    by (simp add: minLoad_alt)
  then show ?thesis
  proof
    assume mx: "minLoad load fl = 2 ^ 63 - 1"
    from minLoad_le [OF c, of load] mx have "2 ^ 63 - 1 \<le> load (ID c)" by simp
    moreover from bound c have "load (ID c) \<le> 2 ^ 63 - 1" by blast
    ultimately have "load (ID c) = minLoad load fl" using mx by simp
    with c show ?thesis by blast
  next
    assume "\<exists>c. Some c \<in> set fl \<and> ID c \<noteq> [] \<and> minLoad load fl = load (ID c)"
    then show ?thesis by metis
  qed
qed

lemma loadFiltered_set:
  "Some c \<in> set (loadFiltered load fl) \<longleftrightarrow>
     Some c \<in> set fl \<and> ID c \<noteq> [] \<and> load (ID c) = minLoad load fl"
  by (auto simp: loadFiltered_def)

lemma loadByAuthID_gc:
  "loadByAuthID provider now (bindings (gcLocked now s)) aid = loadByAuthID provider now (bindings s) aid"
proof -
  have "filter (\<lambda>(k, binding). HasPrefix k (provider @ '':'')
                       \<and> \<not> (authID binding = [] \<or> time_After now (expiresAt binding))
                       \<and> authID binding = aid)
          (filter (\<lambda>(k, v). \<not> (authID v = [] \<or> time_After now (expiresAt v))) bs)
      = filter (\<lambda>(k, binding). HasPrefix k (provider @ '':'')
                       \<and> \<not> (authID binding = [] \<or> time_After now (expiresAt binding))
                       \<and> authID binding = aid) bs" for bs :: "(string \<times> stickyBinding) list"
    by (induction bs) auto
  then show ?thesis by (simp add: loadByAuthID_def gcLocked_def)
qed

lemma authPriority_reading:
  "authPriority None = 50
   \<and> authPriority (Some a) =
      (let attribute = (case Atoi (TrimSpace (case map_of (Attributes a) ''priority'' of Some x \<Rightarrow> x | None \<Rightarrow> [])) of
                          Some n \<Rightarrow> n
                        | None \<Rightarrow> 50)
       in case map_of (Metadata a) ''priority'' of
            Some (AnyInt n) \<Rightarrow> n
          | Some (AnyInt64 n) \<Rightarrow> n
          | Some (AnyFloat64 f) \<Rightarrow> float_to_int f
          | Some (AnyFloat32 f) \<Rightarrow> float_to_int f
          | Some (AnyString t) \<Rightarrow> (case Atoi (TrimSpace t) of Some n \<Rightarrow> n | None \<Rightarrow> attribute)
          | _ \<Rightarrow> attribute)"
proof -
  have e: "Atoi [] = None" by (simp add: Atoi_def)
  show ?thesis
    by (auto simp: authPriority_def priorityFromAny_def defaultAuthPriority_def Let_def e
        split: option.splits any.splits)
qed

lemma float_to_int_trunc:
  assumes "- (2 ^ 63) \<le> q" "q \<le> 2 ^ 63 - 1"
  shows "sint (float_to_int (FloatFinite q)) = (if 0 \<le> q then \<lfloor>q\<rfloor> else \<lceil>q\<rceil>)"
proof -
  let ?z = "if 0 \<le> q then \<lfloor>q\<rfloor> else \<lceil>q\<rceil>"
  have lo: "- (2 ^ 63) \<le> ?z"
  proof (cases "0 \<le> q")
    case True
    then have "0 \<le> \<lfloor>q\<rfloor>" by simp
    then show ?thesis using True by simp
  next
    case False
    have "(- (2 ^ 63) :: int) \<le> \<lceil>q\<rceil>"
      using assms(1) by (simp add: le_ceiling_iff)
    with False show ?thesis by simp
  qed
  have hi: "?z \<le> 2 ^ 63 - 1"
  proof (cases "0 \<le> q")
    case True
    have "\<lfloor>q\<rfloor> \<le> (2 ^ 63 - 1 :: int)"
      using assms(2) by (simp add: floor_le_iff)
    with True show ?thesis by simp
  next
    case False
    then have "\<lceil>q\<rceil> \<le> 0" by (simp add: ceiling_le_iff)
    with False show ?thesis by simp
  qed
  have "sint (word_of_int ?z :: 64 word) = ?z"
    using lo hi by (simp add: sint_sbintrunc' signed_take_bit_int_eq_self)
  with lo hi show ?thesis by (simp add: float_to_int_def Let_def)
qed

subsection \<open>The two paths of \<open>Pick\<close>\<close>

lemma candidateIDs_mem: "Some c \<in> set av \<Longrightarrow> ID c \<in> set (candidateIDs av)"
  by (force simp: candidateIDs_def)

lemma candidateIDs_set: "set (candidateIDs av) = {ID c |c. Some c \<in> set av}"
  by (auto simp: candidateIDs_def split: option.splits)

lemma pickRendezvous_same_ids:
  assumes p: "pickRendezvous k av = Some b"
    and ids: "set (candidateIDs av') - {[]} = set (candidateIDs av) - {[]}"
  shows "map_option ID (pickRendezvous k av') = Some (ID b)"
proof -
  from pickRendezvous_Some [OF p] have k: "k \<noteq> []" and b: "Some b \<in> set av" "ID b \<noteq> []"
    and mx: "\<forall>c. Some c \<in> set av \<and> ID c \<noteq> [] \<longrightarrow> \<not> beats k (ID c) (ID b)"
    by simp_all
  from b have "ID b \<in> set (candidateIDs av) - {[]}" by (simp add: candidateIDs_mem)
  with ids have "ID b \<in> set (candidateIDs av')" by blast
  then obtain c where c: "Some c \<in> set av'" "ID c = ID b" by (auto simp: candidateIDs_set)
  from pickRendezvous_exists [OF k c(1)] c(2) b(2) obtain b' where p': "pickRendezvous k av' = Some b'"
    by auto
  from pickRendezvous_Some [OF p'] have b': "Some b' \<in> set av'" "ID b' \<noteq> []"
    and mx': "\<forall>c. Some c \<in> set av' \<and> ID c \<noteq> [] \<longrightarrow> \<not> beats k (ID c) (ID b')"
    by simp_all
  from mx' c b(2) have 1: "\<not> beats k (ID b) (ID b')" by metis
  from b' have "ID b' \<in> set (candidateIDs av') - {[]}" by (simp add: candidateIDs_mem)
  with ids have "ID b' \<in> set (candidateIDs av)" by blast
  then obtain c' where c': "Some c' \<in> set av" "ID c' = ID b'" by (auto simp: candidateIDs_set)
  with mx b'(2) have 2: "\<not> beats k (ID b') (ID b)" by metis
  from beats_total [OF 1 2] p' show ?thesis by simp
qed

lemma find_candidate:
  assumes "Some a \<in> set av" and "distinct (candidateIDs av)"
  shows "find (\<lambda>candidate. case candidate of None \<Rightarrow> False | Some c \<Rightarrow> ID c = ID a) av = Some (Some a)"
  using assms
proof (induction av)
  case Nil
  then show ?case by simp
next
  case (Cons x av)
  show ?case
  proof (cases x)
    case None
    with Cons show ?thesis by (simp add: candidateIDs_def)
  next
    case (Some c)
    show ?thesis
    proof (cases "c = a")
      case True
      with Some show ?thesis by simp
    next
      case False
      with Cons.prems Some have a: "Some a \<in> set av" by simp
      from Cons.prems(2) Some have d: "distinct (candidateIDs av)" and n: "ID c \<notin> set (candidateIDs av)"
        by (simp_all add: candidateIDs_def)
      from candidateIDs_mem [OF a] n have "ID c \<noteq> ID a" by metis
      with Cons.IH [OF a d] Some show ?thesis by simp
    qed
  qed
qed

lemma find_candidate_Some:
  assumes "find (\<lambda>candidate. case candidate of None \<Rightarrow> False | Some c \<Rightarrow> ID c = aid) av = Some x"
  shows "\<exists>c. x = Some c \<and> Some c \<in> set av \<and> ID c = aid"
  using assms
proof (induction av)
  case Nil
  then show ?case by simp
next
  case (Cons y av)
  then show ?case by (cases y) (auto split: if_splits)
qed

lemma find_candidate_None:
  assumes "find (\<lambda>candidate. case candidate of None \<Rightarrow> False | Some c \<Rightarrow> ID c = aid) av = None"
  shows "\<forall>c. Some c \<in> set av \<longrightarrow> ID c \<noteq> aid"
  using assms by (force simp: find_None_iff)

lemma map_of_filter_keep:
  "map_of al k = Some v \<Longrightarrow> P (k, v) \<Longrightarrow> map_of (filter P al) k = Some v"
  by (induction al) (auto split: if_splits)

lemma map_of_filter_None: "map_of al k = None \<Longrightarrow> map_of (filter P al) k = None"
  by (induction al) (auto split: if_splits)

lemma gcIfDue_keep:
  assumes "map_of (bindings s) k = Some b" and "authID b \<noteq> []" and "now \<le> expiresAt b"
  shows "map_of (bindings (gcIfDue now s)) k = Some b"
proof -
  have "map_of (filter (\<lambda>(k, v). \<not> (authID v = [] \<or> time_After now (expiresAt v))) (bindings s)) k = Some b"
    using assms by (intro map_of_filter_keep) (auto simp: time_After_def)
  with assms(1) show ?thesis by (simp add: gcIfDue_def gcLocked_def)
qed

lemma gcIfDue_None: "map_of (bindings s) k = None \<Longrightarrow> map_of (bindings (gcIfDue now s)) k = None"
  by (simp add: gcIfDue_def gcLocked_def map_of_filter_None)

lemma gcIfDue_lookup:
  assumes "distinct (map fst (bindings s))"
  shows "map_of (bindings (gcIfDue now s)) k = map_of (bindings s) k
     \<or> (map_of (bindings (gcIfDue now s)) k = None
        \<and> (\<exists>v. map_of (bindings s) k = Some v \<and> (authID v = [] \<or> expiresAt v < now)))"
  using gcLocked_lookup [OF assms, of now k]
  by (auto simp: gcIfDue_def split: option.splits if_splits)

lemma gcIfDue_length: "length (bindings (gcIfDue now s)) \<le> length (bindings s)"
  by (simp add: gcIfDue_def gcLocked_def)

lemma gcIfDue_load:
  "loadByAuthID provider now (bindings (gcIfDue now s)) aid = loadByAuthID provider now (bindings s) aid"
  by (simp add: gcIfDue_def loadByAuthID_gc)

lemma Pick_unfold:
  assumes "gaa auths provider model now = Inr av" and "extractStickySessionKey gjson opts = sk" and "sk \<noteq> []"
  shows "Pick gjson gaa rrPick now provider model opts auths s =
     (case map_of (bindings (gcIfDue now s)) (provider @ '':'' @ sk) of
        None \<Rightarrow> bindNew sk (provider @ '':'' @ sk) provider now av (gcIfDue now s)
      | Some existing \<Rightarrow>
          if authID existing \<noteq> [] \<and> time_Before now (expiresAt existing)
          then (case find (\<lambda>candidate. case candidate of None \<Rightarrow> False
                             | Some c \<Rightarrow> ID c = authID existing) av of
                  Some (Some c) \<Rightarrow>
                    (Inr c, (gcIfDue now s)\<lparr>bindings := AList.update (provider @ '':'' @ sk)
                               (freshBinding (ID c) now) (bindings (gcIfDue now s))\<rparr>)
                | _ \<Rightarrow> bindNew sk (provider @ '':'' @ sk) provider now av (gcIfDue now s))
          else bindNew sk (provider @ '':'' @ sk) provider now av
                 ((gcIfDue now s)\<lparr>bindings := AList.delete (provider @ '':'' @ sk) (bindings (gcIfDue now s))\<rparr>))"
  using assms(3) unfolding Pick_def Let_def assms(1) assms(2) sum.case
  by (simp only: if_False)

lemma bindNew_Inr:
  assumes "bindNew sk bk provider now av s = (Inr sel, s')"
  shows "pickRendezvous sk (loadFiltered (loadByAuthID provider now (bindings s)) (priorityFiltered av)) = Some sel
     \<and> s' = s\<lparr>bindings := AList.update bk (freshBinding (ID sel) now) (bindings s)\<rparr>"
  using assms
  by (auto simp: bindNew_def Let_def split: option.splits)

lemma bindNew_Inl:
  assumes "bindNew sk bk provider now av s = (Inl e, s')"
  shows "s' = s \<and> Code e = ''auth_not_found''"
  using assms by (auto simp: bindNew_def Let_def split: option.splits)

lemma bindNew_selected:
  assumes "bindNew sk bk provider now av s = (Inr sel, s')"
  shows "Some sel \<in> set av \<and> ID sel \<noteq> [] \<and> authPriority (Some sel) = minPriority av
     \<and> map_of (bindings s') bk = Some (freshBinding (ID sel) now)"
proof -
  from bindNew_Inr [OF assms]
  have p: "pickRendezvous sk (loadFiltered (loadByAuthID provider now (bindings s)) (priorityFiltered av)) = Some sel"
    and s': "s' = s\<lparr>bindings := AList.update bk (freshBinding (ID sel) now) (bindings s)\<rparr>"
    by simp_all
  from pickRendezvous_Some [OF p]
  have "Some sel \<in> set (loadFiltered (loadByAuthID provider now (bindings s)) (priorityFiltered av))"
    and id: "ID sel \<noteq> []" by simp_all
  then have "Some sel \<in> set (priorityFiltered av)" by (simp add: loadFiltered_set)
  then have "Some sel \<in> set av" "authPriority (Some sel) = minPriority av"
    by (simp_all add: priorityFiltered_set)
  with id s' show ?thesis by (simp add: update_conv')
qed


lemma Pick_hit:
  assumes av: "gaa auths provider model now = Inr av"
    and sk: "extractStickySessionKey gjson opts = sk" "sk \<noteq> []"
    and b: "map_of (bindings s) (provider @ '':'' @ sk) = Some b" "authID b = ID a" "ID a \<noteq> []"
      "now < expiresAt b"
    and a: "Some a \<in> set av" "distinct (candidateIDs av)"
  shows "Pick gjson gaa rrPick now provider model opts auths s =
     (Inr a, (gcIfDue now s)\<lparr>bindings := AList.update (provider @ '':'' @ sk)
                               (freshBinding (ID a) now) (bindings (gcIfDue now s))\<rparr>)"
proof -
  have k: "map_of (bindings (gcIfDue now s)) (provider @ '':'' @ sk) = Some b"
    using b by (intro gcIfDue_keep) simp_all
  show ?thesis
    unfolding Pick_unfold [where gaa = gaa, OF av sk] k
    using b find_candidate [OF a] by (simp add: time_Before_def)
qed

lemma Pick_miss:
  assumes av: "gaa auths provider model now = Inr av"
    and sk: "extractStickySessionKey gjson opts = sk" "sk \<noteq> []"
    and keys: "distinct (map fst (bindings s))"
    and nohit: "\<not> (\<exists>b a. map_of (bindings s) (provider @ '':'' @ sk) = Some b \<and> authID b \<noteq> []
                  \<and> now < expiresAt b \<and> Some a \<in> set av \<and> ID a = authID b)"
  shows "\<exists>s2. Pick gjson gaa rrPick now provider model opts auths s
            = bindNew sk (provider @ '':'' @ sk) provider now av s2
          \<and> length (bindings s2) \<le> length (bindings s)
          \<and> (map_of (bindings s) (provider @ '':'' @ sk) = None \<longrightarrow> s2 = gcIfDue now s)"
proof -
  note u = Pick_unfold [where gaa = gaa and rrPick = rrPick and s = s, OF av sk]
  let ?bk = "provider @ '':'' @ sk"
  let ?s1 = "gcIfDue now s"
  show ?thesis
  proof (cases "map_of (bindings ?s1) ?bk")
    case None
    with u have "Pick gjson gaa rrPick now provider model opts auths s = bindNew sk ?bk provider now av ?s1"
      by simp
    then show ?thesis using gcIfDue_length [of now s] by blast
  next
    case (Some existing)
    with gcIfDue_lookup [OF keys, of now ?bk] have ex: "map_of (bindings s) ?bk = Some existing"
      by auto
    show ?thesis
    proof (cases "authID existing \<noteq> [] \<and> time_Before now (expiresAt existing)")
      case False
      with u Some have "Pick gjson gaa rrPick now provider model opts auths s
          = bindNew sk ?bk provider now av (?s1\<lparr>bindings := AList.delete ?bk (bindings ?s1)\<rparr>)"
        by auto
      moreover have "length (bindings (?s1\<lparr>bindings := AList.delete ?bk (bindings ?s1)\<rparr>)) \<le> length (bindings s)"
        using AList.length_delete_le [of ?bk "bindings ?s1"] gcIfDue_length [of now s] by simp
      ultimately show ?thesis using ex by auto
    next
      case True
      have "find (\<lambda>candidate. case candidate of None \<Rightarrow> False | Some c \<Rightarrow> ID c = authID existing) av = None"
      proof (cases "find (\<lambda>candidate. case candidate of None \<Rightarrow> False | Some c \<Rightarrow> ID c = authID existing) av")
        case None
        then show ?thesis .
      next
        case f: (Some x)
        from find_candidate_Some [OF f] obtain c where "Some c \<in> set av" "ID c = authID existing" by blast
        with nohit ex True show ?thesis by (auto simp: time_Before_def)
      qed
      with u Some True have "Pick gjson gaa rrPick now provider model opts auths s = bindNew sk ?bk provider now av ?s1"
        by simp
      then show ?thesis using gcIfDue_length [of now s] ex by auto
    qed
  qed
qed

lemma bindNew_succeeds:
  assumes sk: "sk \<noteq> []"
    and av: "av \<noteq> []" "\<forall>c \<in> set av. \<exists>a. c = Some a \<and> ID a \<noteq> []"
    and len: "length (bindings s) < 2 ^ 63"
  shows "\<exists>sel s'. bindNew sk bk provider now av s = (Inr sel, s')"
proof -
  let ?load = "loadByAuthID provider now (bindings s)"
  from minPriority_attained [OF av(1)] obtain c where c: "c \<in> set av" "authPriority c = minPriority av"
    by blast
  with av(2) obtain a where a: "c = Some a" "ID a \<noteq> []" by blast
  from c a have pf: "Some a \<in> set (priorityFiltered av)" by (simp add: priorityFiltered_set)
  have bound: "\<forall>c. Some c \<in> set (priorityFiltered av) \<and> ID c \<noteq> [] \<longrightarrow> ?load (ID c) \<le> 2 ^ 63 - 1"
  proof (intro allI impI)
    fix c
    have "?load (ID c) \<le> length (bindings s)" by (simp add: loadByAuthID_def)
    with len show "?load (ID c) \<le> 2 ^ 63 - 1" by simp
  qed
  from minLoad_attained [OF pf a(2) bound] obtain c' where
    "Some c' \<in> set (priorityFiltered av)" "ID c' \<noteq> []" "?load (ID c') = minLoad ?load (priorityFiltered av)"
    by blast
  then have "Some c' \<in> set (loadFiltered ?load (priorityFiltered av))" by (simp add: loadFiltered_set)
  from pickRendezvous_exists [OF sk this \<open>ID c' \<noteq> []\<close>] obtain sel where
    "pickRendezvous sk (loadFiltered ?load (priorityFiltered av)) = Some sel" by blast
  then show ?thesis by (simp add: bindNew_def Let_def)
qed



lemma gcIfDue_exact:
  assumes d: "distinct (map fst (bindings s))"
  shows "map_of (bindings (gcIfDue now s)) k =
           (if stickyGCMinEntries \<le> length (bindings s) \<or> lastGC s = 0
               \<or> stickyGCInterval \<le> now - lastGC s
            then (case map_of (bindings s) k of
                    None \<Rightarrow> None
                  | Some v \<Rightarrow> if authID v = [] \<or> expiresAt v < now then None else Some v)
            else map_of (bindings s) k)"
proof -
  have iv: "minDuration < stickyGCInterval" "stickyGCInterval \<le> maxDuration"
    by (simp_all add: stickyGCInterval_def maxDuration_def minDuration_def time_Minute_def)
  show ?thesis
  proof (cases "bindings s = []")
    case True
    then show ?thesis by (simp add: gcIfDue_def)
  next
    case False
    then show ?thesis
      by (simp add: gcIfDue_def gcLocked_lookup [OF d] time_IsZero_def time_Sub_ge [OF iv])
  qed
qed

lemma loadByAuthID_delete:
  assumes "\<forall>v. (k, v) \<in> set bs \<longrightarrow> authID v = [] \<or> time_After now (expiresAt v) \<or> authID v \<noteq> aid"
  shows "loadByAuthID provider now (AList.delete k bs) aid = loadByAuthID provider now bs aid"
  using assms by (induction bs) (auto simp: loadByAuthID_def)

lemma loadByAuthID_delete_gc:
  "loadByAuthID provider now (AList.delete k (bindings (gcIfDue now s))) aid
     = loadByAuthID provider now (AList.delete k (bindings s)) aid"
proof -
  have "loadByAuthID provider now (AList.delete k (filter (\<lambda>(k, v). \<not> (authID v = [] \<or> time_After now (expiresAt v))) bs)) aid
     = loadByAuthID provider now (AList.delete k bs) aid" for bs
    by (induction bs) (auto simp: loadByAuthID_def)
  then show ?thesis by (simp add: gcIfDue_def gcLocked_def)
qed

lemma loadByAuthID_delete_le: "loadByAuthID provider now (AList.delete k bs) aid \<le> length bs"
proof -
  have "loadByAuthID provider now (AList.delete k bs) aid \<le> length (AList.delete k bs)"
    by (simp add: loadByAuthID_def)
  also have "\<dots> \<le> length bs" by (rule AList.length_delete_le)
  finally show ?thesis .
qed

lemma minLoad_foldl_cong:
  "\<forall>c. Some c \<in> set fl \<longrightarrow> load (ID c) = load' (ID c)
   \<Longrightarrow> foldl (minLoad_step load) m fl = foldl (minLoad_step load') m fl"
proof (induction fl arbitrary: m)
  case Nil
  then show ?case by simp
next
  case (Cons x fl)
  have "minLoad_step load m x = minLoad_step load' m x"
    using Cons.prems by (cases x) (auto simp: minLoad_step_def)
  with Cons show ?case by simp
qed

lemma loadFiltered_cong:
  assumes "\<forall>c. Some c \<in> set fl \<longrightarrow> load (ID c) = load' (ID c)"
  shows "loadFiltered load fl = loadFiltered load' fl"
proof -
  have m: "minLoad load fl = minLoad load' fl"
    unfolding minLoad_def by (rule minLoad_foldl_cong [OF assms])
  show ?thesis
    unfolding loadFiltered_def m
    using assms by (intro filter_cong) (auto split: option.splits)
qed

lemma loadFiltered_Some: "x \<in> set (loadFiltered load fl) \<Longrightarrow> \<exists>c. x = Some c \<and> ID c \<noteq> []"
  by (auto simp: loadFiltered_def split: option.splits)

lemma priorityFiltered_least:
  "set (priorityFiltered av) = {c \<in> set av. \<forall>c' \<in> set av. sint (authPriority c) \<le> sint (authPriority c')}"
proof (cases "av = []")
  case True
  then show ?thesis by (simp add: priorityFiltered_def)
next
  case False
  from minPriority_attained [OF False] obtain m where m: "m \<in> set av" "authPriority m = minPriority av"
    by blast
  show ?thesis
  proof (intro set_eqI iffI)
    fix c assume "c \<in> set (priorityFiltered av)"
    then have "c \<in> set av" "authPriority c = minPriority av" by (simp_all add: priorityFiltered_set)
    then show "c \<in> {c \<in> set av. \<forall>c' \<in> set av. sint (authPriority c) \<le> sint (authPriority c')}"
      by (simp add: minPriority_le)
  next
    fix c assume "c \<in> {c \<in> set av. \<forall>c' \<in> set av. sint (authPriority c) \<le> sint (authPriority c')}"
    then have c: "c \<in> set av" "\<forall>c' \<in> set av. sint (authPriority c) \<le> sint (authPriority c')" by simp_all
    from c(2) m have "sint (authPriority c) \<le> sint (minPriority av)" by metis
    with minPriority_le [OF c(1)] have "sint (authPriority c) = sint (minPriority av)" by simp
    then have "authPriority c = minPriority av" by (rule signed_word_eqI)
    with c(1) show "c \<in> set (priorityFiltered av)" by (simp add: priorityFiltered_set)
  qed
qed

lemma remaining_iff:
  assumes bound: "\<forall>aid. load aid \<le> 2 ^ 63 - 1"
  shows "Some c \<in> set (loadFiltered load (priorityFiltered av)) \<longleftrightarrow>
     Some c \<in> set av \<and> ID c \<noteq> []
     \<and> (\<forall>c' \<in> set av. sint (authPriority (Some c)) \<le> sint (authPriority c'))
     \<and> (\<forall>c'. Some c' \<in> set av \<and> ID c' \<noteq> [] \<and> authPriority (Some c') = authPriority (Some c)
            \<longrightarrow> load (ID c) \<le> load (ID c'))"
    (is "?L \<longleftrightarrow> ?R")
proof
  assume ?L
  then have pf: "Some c \<in> set (priorityFiltered av)" and id: "ID c \<noteq> []"
    and ml: "load (ID c) = minLoad load (priorityFiltered av)"
    by (simp_all add: loadFiltered_set)
  from pf have mem: "Some c \<in> set av" and pr: "authPriority (Some c) = minPriority av"
    by (simp_all add: priorityFiltered_set)
  from pf have least: "\<forall>c' \<in> set av. sint (authPriority (Some c)) \<le> sint (authPriority c')"
    by (simp add: priorityFiltered_least)
  have "load (ID c) \<le> load (ID c')"
    if "Some c' \<in> set av \<and> ID c' \<noteq> [] \<and> authPriority (Some c') = authPriority (Some c)" for c'
  proof -
    from that pr have "Some c' \<in> set (priorityFiltered av)" by (simp add: priorityFiltered_set)
    from minLoad_le [OF this, of load] that ml show ?thesis by simp
  qed
  with mem id least show ?R by blast
next
  assume r: ?R
  then have mem: "Some c \<in> set av" and id: "ID c \<noteq> []"
    and least: "\<forall>c' \<in> set av. sint (authPriority (Some c)) \<le> sint (authPriority c')"
    and ll: "\<forall>c'. Some c' \<in> set av \<and> ID c' \<noteq> [] \<and> authPriority (Some c') = authPriority (Some c)
            \<longrightarrow> load (ID c) \<le> load (ID c')"
    by simp_all
  from mem least have pf: "Some c \<in> set (priorityFiltered av)" by (simp add: priorityFiltered_least)
  then have pr: "authPriority (Some c) = minPriority av" by (simp add: priorityFiltered_set)
  have b: "\<forall>c. Some c \<in> set (priorityFiltered av) \<and> ID c \<noteq> [] \<longrightarrow> load (ID c) \<le> 2 ^ 63 - 1"
    using bound by simp
  from minLoad_attained [OF pf id b] obtain m where m: "Some m \<in> set (priorityFiltered av)" "ID m \<noteq> []"
    "load (ID m) = minLoad load (priorityFiltered av)"
    by blast
  from m(1) pr have "Some m \<in> set av" "authPriority (Some m) = authPriority (Some c)"
    by (simp_all add: priorityFiltered_set)
  with ll m(2) have "load (ID c) \<le> load (ID m)" by blast
  with minLoad_le [OF pf id, of load] m(3) have "load (ID c) = minLoad load (priorityFiltered av)" by simp
  with pf id show ?L by (simp add: loadFiltered_set)
qed

lemma Pick_miss_remaining:
  assumes av: "gaa auths provider model now = Inr av"
    and sk: "extractStickySessionKey gjson opts = sk" "sk \<noteq> []"
    and keys: "distinct (map fst (bindings s))"
    and nohit: "\<not> (\<exists>b a. map_of (bindings s) (provider @ '':'' @ sk) = Some b \<and> authID b \<noteq> []
                  \<and> now < expiresAt b \<and> Some a \<in> set av \<and> ID a = authID b)"
  shows "\<exists>s2. Pick gjson gaa rrPick now provider model opts auths s
            = bindNew sk (provider @ '':'' @ sk) provider now av s2
          \<and> (\<forall>c. Some c \<in> set av \<longrightarrow>
                loadByAuthID provider now (bindings s2) (ID c)
                  = loadByAuthID provider now (AList.delete (provider @ '':'' @ sk) (bindings s)) (ID c))"
proof -
  note u = Pick_unfold [where gaa = gaa and rrPick = rrPick and s = s, OF av sk]
  let ?bk = "provider @ '':'' @ sk"
  let ?s1 = "gcIfDue now s"
  have mem: "(?bk, v) \<in> set (bindings s) \<Longrightarrow> map_of (bindings s) ?bk = Some v" for v
    using keys by simp
  show ?thesis
  proof (cases "map_of (bindings ?s1) ?bk")
    case None
    with u have p: "Pick gjson gaa rrPick now provider model opts auths s = bindNew sk ?bk provider now av ?s1"
      by simp
    have "\<forall>v. (?bk, v) \<in> set (bindings s) \<longrightarrow> authID v = [] \<or> time_After now (expiresAt v) \<or> authID v \<noteq> aid" for aid
      using gcIfDue_lookup [OF keys, of now ?bk] None mem by (auto simp: time_After_def)
    from loadByAuthID_delete [OF this]
    have "loadByAuthID provider now (bindings ?s1) aid
        = loadByAuthID provider now (AList.delete ?bk (bindings s)) aid" for aid
      by (simp add: gcIfDue_load)
    with p show ?thesis by blast
  next
    case (Some existing)
    with gcIfDue_lookup [OF keys, of now ?bk] have ex: "map_of (bindings s) ?bk = Some existing"
      by auto
    show ?thesis
    proof (cases "authID existing \<noteq> [] \<and> time_Before now (expiresAt existing)")
      case False
      with u Some have "Pick gjson gaa rrPick now provider model opts auths s
          = bindNew sk ?bk provider now av (?s1\<lparr>bindings := AList.delete ?bk (bindings ?s1)\<rparr>)"
        by auto
      then show ?thesis by (auto simp: loadByAuthID_delete_gc)
    next
      case True
      have f: "find (\<lambda>candidate. case candidate of None \<Rightarrow> False | Some c \<Rightarrow> ID c = authID existing) av = None"
      proof (cases "find (\<lambda>candidate. case candidate of None \<Rightarrow> False | Some c \<Rightarrow> ID c = authID existing) av")
        case None
        then show ?thesis .
      next
        case f: (Some x)
        from find_candidate_Some [OF f] obtain c where "Some c \<in> set av" "ID c = authID existing" by blast
        with nohit ex True show ?thesis by (auto simp: time_Before_def)
      qed
      with u Some True have p: "Pick gjson gaa rrPick now provider model opts auths s = bindNew sk ?bk provider now av ?s1"
        by simp
      have "loadByAuthID provider now (bindings ?s1) (ID c)
          = loadByAuthID provider now (AList.delete ?bk (bindings s)) (ID c)" if c: "Some c \<in> set av" for c
      proof -
        from find_candidate_None [OF f] c have ne: "ID c \<noteq> authID existing" by blast
        have "\<forall>v. (?bk, v) \<in> set (bindings s) \<longrightarrow>
            authID v = [] \<or> time_After now (expiresAt v) \<or> authID v \<noteq> ID c"
          using mem ex ne by auto
        from loadByAuthID_delete [OF this] show ?thesis by (simp add: gcIfDue_load)
      qed
      with p show ?thesis by blast
    qed
  qed
qed

lemma Pick_miss_rendezvous:
  assumes av: "gaa auths provider model now = Inr av"
    and sk: "extractStickySessionKey gjson opts = sk" "sk \<noteq> []"
    and keys: "distinct (map fst (bindings s))"
    and nohit: "\<not> (\<exists>b a. map_of (bindings s) (provider @ '':'' @ sk) = Some b \<and> authID b \<noteq> []
                  \<and> now < expiresAt b \<and> Some a \<in> set av \<and> ID a = authID b)"
  shows "fst (Pick gjson gaa rrPick now provider model opts auths s) =
     (case pickRendezvous sk
             (loadFiltered (loadByAuthID provider now (AList.delete (provider @ '':'' @ sk) (bindings s)))
                (priorityFiltered av)) of
        None \<Rightarrow> Inl \<lparr>Code = ''auth_not_found'', Message = ''no auth available''\<rparr>
      | Some sel \<Rightarrow> Inr sel)"
proof -
  from Pick_miss_remaining [where gaa = gaa and rrPick = rrPick, OF av sk keys nohit]
  obtain s2 where p: "Pick gjson gaa rrPick now provider model opts auths s
            = bindNew sk (provider @ '':'' @ sk) provider now av s2"
    and l: "\<forall>c. Some c \<in> set av \<longrightarrow>
                loadByAuthID provider now (bindings s2) (ID c)
                  = loadByAuthID provider now (AList.delete (provider @ '':'' @ sk) (bindings s)) (ID c)"
    by blast
  have "\<forall>c. Some c \<in> set (priorityFiltered av) \<longrightarrow>
                loadByAuthID provider now (bindings s2) (ID c)
                  = loadByAuthID provider now (AList.delete (provider @ '':'' @ sk) (bindings s)) (ID c)"
    using l by (simp add: priorityFiltered_set)
  from loadFiltered_cong [OF this] p show ?thesis
    by (simp add: bindNew_def Let_def split: option.splits)
qed

lemma bindNew_no_usable:
  assumes "\<forall>c. Some c \<in> set av \<longrightarrow> ID c = []"
  shows "bindNew sk bk provider now av s = (Inl \<lparr>Code = ''auth_not_found'', Message = ''no auth available''\<rparr>, s)"
proof -
  have "loadFiltered (loadByAuthID provider now (bindings s)) (priorityFiltered av) = []"
    using assms by (auto simp: loadFiltered_def filter_empty_conv priorityFiltered_set split: option.splits)
  then show ?thesis by (simp add: bindNew_def Let_def pickRendezvous_def)
qed

lemma Pick_no_usable:
  assumes av: "gaa auths provider model now = Inr av"
    and sk: "extractStickySessionKey gjson opts = sk" "sk \<noteq> []"
    and none: "\<forall>c. Some c \<in> set av \<longrightarrow> ID c = []"
  shows "\<exists>s'. Pick gjson gaa rrPick now provider model opts auths s
           = (Inl \<lparr>Code = ''auth_not_found'', Message = ''no auth available''\<rparr>, s')"
proof -
  note u = Pick_unfold [where gaa = gaa and rrPick = rrPick and s = s, OF av sk]
  show ?thesis
  proof (cases "map_of (bindings (gcIfDue now s)) (provider @ '':'' @ sk)")
    case None
    with u show ?thesis by (simp add: bindNew_no_usable [OF none])
  next
    case (Some existing)
    show ?thesis
    proof (cases "authID existing \<noteq> [] \<and> time_Before now (expiresAt existing)")
      case False
      with u Some show ?thesis by (auto simp: bindNew_no_usable [OF none])
    next
      case True
      have "find (\<lambda>candidate. case candidate of None \<Rightarrow> False | Some c \<Rightarrow> ID c = authID existing) av = None"
      proof (cases "find (\<lambda>candidate. case candidate of None \<Rightarrow> False | Some c \<Rightarrow> ID c = authID existing) av")
        case None
        then show ?thesis .
      next
        case f: (Some x)
        from find_candidate_Some [OF f] obtain c where "Some c \<in> set av" "ID c = authID existing" by blast
        with none True show ?thesis by auto
      qed
      with u Some True show ?thesis by (simp add: bindNew_no_usable [OF none])
    qed
  qed
qed

lemma Pick_Inl:
  assumes av: "gaa auths provider model now = Inr av"
    and sk: "extractStickySessionKey gjson opts = sk" "sk \<noteq> []"
    and keys: "distinct (map fst (bindings s))"
    and fail: "Pick gjson gaa rrPick now provider model opts auths s = (Inl e, s')"
  shows "e = \<lparr>Code = ''auth_not_found'', Message = ''no auth available''\<rparr>
     \<and> (\<forall>k. map_of (bindings s') k =
           (if k = provider @ '':'' @ sk
               \<and> (\<exists>v. map_of (bindings s) k = Some v \<and> (authID v = [] \<or> expiresAt v \<le> now))
            then None
            else if stickyGCMinEntries \<le> length (bindings s) \<or> lastGC s = 0
                    \<or> stickyGCInterval \<le> now - lastGC s
                 then (case map_of (bindings s) k of
                         None \<Rightarrow> None
                       | Some v \<Rightarrow> if authID v = [] \<or> expiresAt v < now then None else Some v)
                 else map_of (bindings s) k))"
proof -
  note u = Pick_unfold [where gaa = gaa and rrPick = rrPick and s = s, OF av sk]
  let ?bk = "provider @ '':'' @ sk"
  let ?s1 = "gcIfDue now s"
  note g = gcIfDue_exact [OF keys, of now]
  have inl: "bindNew sk ?bk provider now av t = (Inl e, s')
      \<Longrightarrow> e = \<lparr>Code = ''auth_not_found'', Message = ''no auth available''\<rparr> \<and> s' = t" for t
    by (auto simp: bindNew_def Let_def split: option.splits)
  show ?thesis
  proof (cases "map_of (bindings ?s1) ?bk")
    case None
    with u fail have "bindNew sk ?bk provider now av ?s1 = (Inl e, s')" by simp
    from inl [OF this] have e: "e = \<lparr>Code = ''auth_not_found'', Message = ''no auth available''\<rparr>"
      and s': "s' = ?s1" by simp_all
    show ?thesis
    proof (intro conjI allI)
      show "e = \<lparr>Code = ''auth_not_found'', Message = ''no auth available''\<rparr>" by (rule e)
    next
      fix k
      show "map_of (bindings s') k =
           (if k = ?bk \<and> (\<exists>v. map_of (bindings s) k = Some v \<and> (authID v = [] \<or> expiresAt v \<le> now))
            then None
            else if stickyGCMinEntries \<le> length (bindings s) \<or> lastGC s = 0
                    \<or> stickyGCInterval \<le> now - lastGC s
                 then (case map_of (bindings s) k of
                         None \<Rightarrow> None
                       | Some v \<Rightarrow> if authID v = [] \<or> expiresAt v < now then None else Some v)
                 else map_of (bindings s) k)"
      proof (cases "k = ?bk")
        case True
        with None have "map_of (bindings ?s1) k = None" by simp
        then show ?thesis unfolding s' using g [of k] by (simp split: if_splits)
      next
        case False
        then show ?thesis unfolding s' using g [of k] by simp
      qed
    qed
  next
    case (Some existing)
    show ?thesis
    proof (cases "authID existing \<noteq> [] \<and> time_Before now (expiresAt existing)")
      case False
      with u Some fail have "bindNew sk ?bk provider now av
          (?s1\<lparr>bindings := AList.delete ?bk (bindings ?s1)\<rparr>) = (Inl e, s')"
        by auto
      from inl [OF this] have e: "e = \<lparr>Code = ''auth_not_found'', Message = ''no auth available''\<rparr>"
        and s': "s' = ?s1\<lparr>bindings := AList.delete ?bk (bindings ?s1)\<rparr>" by simp_all
      from Some g [of ?bk] have ex: "map_of (bindings s) ?bk = Some existing"
        by (auto split: if_splits option.splits)
      from False have dead: "authID existing = [] \<or> expiresAt existing \<le> now"
        by (auto simp: time_Before_def)
      show ?thesis
      proof (intro conjI allI)
        show "e = \<lparr>Code = ''auth_not_found'', Message = ''no auth available''\<rparr>" by (rule e)
      next
        fix k
        show "map_of (bindings s') k =
           (if k = ?bk \<and> (\<exists>v. map_of (bindings s) k = Some v \<and> (authID v = [] \<or> expiresAt v \<le> now))
            then None
            else if stickyGCMinEntries \<le> length (bindings s) \<or> lastGC s = 0
                    \<or> stickyGCInterval \<le> now - lastGC s
                 then (case map_of (bindings s) k of
                         None \<Rightarrow> None
                       | Some v \<Rightarrow> if authID v = [] \<or> expiresAt v < now then None else Some v)
                 else map_of (bindings s) k)"
        proof (cases "k = ?bk")
          case True
          with ex dead show ?thesis unfolding s' by (simp add: delete_conv')
        next
          case False
          then show ?thesis unfolding s' using g [of k] by (simp add: delete_conv')
        qed
      qed
    next
      case True
      have "find (\<lambda>candidate. case candidate of None \<Rightarrow> False | Some c \<Rightarrow> ID c = authID existing) av = None"
      proof (cases "find (\<lambda>candidate. case candidate of None \<Rightarrow> False | Some c \<Rightarrow> ID c = authID existing) av")
        case None
        then show ?thesis .
      next
        case f: (Some x)
        from find_candidate_Some [OF f] obtain c where "x = Some c" by blast
        with u Some True f fail show ?thesis by simp
      qed
      with u Some True fail have "bindNew sk ?bk provider now av ?s1 = (Inl e, s')" by simp
      from inl [OF this] have e: "e = \<lparr>Code = ''auth_not_found'', Message = ''no auth available''\<rparr>"
        and s': "s' = ?s1" by simp_all
      from Some g [of ?bk] have ex: "map_of (bindings s) ?bk = Some existing"
        by (auto split: if_splits option.splits)
      from True have live: "authID existing \<noteq> []" "now < expiresAt existing"
        by (simp_all add: time_Before_def)
      show ?thesis
      proof (intro conjI allI)
        show "e = \<lparr>Code = ''auth_not_found'', Message = ''no auth available''\<rparr>" by (rule e)
      next
        fix k
        show "map_of (bindings s') k =
           (if k = ?bk \<and> (\<exists>v. map_of (bindings s) k = Some v \<and> (authID v = [] \<or> expiresAt v \<le> now))
            then None
            else if stickyGCMinEntries \<le> length (bindings s) \<or> lastGC s = 0
                    \<or> stickyGCInterval \<le> now - lastGC s
                 then (case map_of (bindings s) k of
                         None \<Rightarrow> None
                       | Some v \<Rightarrow> if authID v = [] \<or> expiresAt v < now then None else Some v)
                 else map_of (bindings s) k)"
        proof (cases "k = ?bk")
          case True
          with ex live show ?thesis unfolding s' using g [of k] by simp
        next
          case False
          then show ?thesis unfolding s' using g [of k] by simp
        qed
      qed
    qed
  qed
qed

lemma Pick_Inl_frame:
  assumes keys: "distinct (map fst (bindings s))"
    and fail: "Pick gjson gaa rrPick now provider model opts auths s = (Inl e, s')"
    and look: "map_of (bindings s') k = Some v"
  shows "map_of (bindings s) k = Some v"
proof (cases "gaa auths provider model now")
  case (Inl err)
  with fail have "s' = s" by (simp add: Pick_def)
  with look show ?thesis by simp
next
  case (Inr av)
  show ?thesis
  proof (cases "extractStickySessionKey gjson opts = []")
    case True
    with Inr fail have "bindings s' = bindings s"
      by (auto simp: Pick_def split: prod.splits)
    with look show ?thesis by simp
  next
    case False
    from Pick_Inl [where gaa = gaa and rrPick = rrPick, OF Inr refl False keys fail] look
    show ?thesis by (auto split: if_splits option.splits)
  qed
qed

subsection \<open>The fixtures\<close>

lemma testOpts_key: "extractStickySessionKey noUserID testOpts = testKey"
proof -
  have 1: "TrimSpace (Header_Get (Headers testOpts) ''session_id'') = ''s123''"
    unfolding testOpts_def by code_simp
  show ?thesis
    by (simp add: extractStickySessionKey_refines 1 sessionKey_spec_def testKey_def)
qed

lemma testKey_nonempty: "testKey \<noteq> []"
  by (simp add: testKey_def)

lemma eligible_testAuth: "eligible model now (Some (testAuth aid metadata []))"
  by (simp add: eligible_def testAuth_def quotaForbids_def)

lemma ID_testAuth: "ID (testAuth aid metadata ms) = aid"
  by (simp add: testAuth_def)

lemma authPriority_testAuth_default: "authPriority (Some (testAuth aid [] ms)) = 50"
  by (simp add: authPriority_def testAuth_def defaultAuthPriority_def Atoi_def TrimSpace_def
      spaceRunes_def leadingSpace_def HasPrefix_def)

lemma authPriority_testAuth_int: "authPriority (Some (testAuth aid [(''priority'', AnyInt n)] ms)) = n"
  by (simp add: authPriority_def testAuth_def priorityFromAny_def)

lemma getAvailableAuths_all_eligible:
  assumes "auths \<noteq> []" and "\<forall>c \<in> set auths. eligible model now c"
  shows "getAvailableAuths auths provider model now = Inr auths"
  using assms by (simp add: getAvailableAuths_def filter_id_conv)

lemma priority_sless: "(10 :: go_int) <s 50" "\<not> (50 :: go_int) <s 10" "(50 :: go_int) <s MaxInt" "(10 :: go_int) <s MaxInt"
  "\<not> (10 :: go_int) <s 10"
  by (simp_all add: word_sless_alt MaxInt_def)

lemma priority_sless_refl: "\<not> (50 :: go_int) <s 50"
  by (simp add: word_sless_alt)

lemma testKey_other: "''codex'' @ '':'' @ testKey \<noteq> ''codex:x''"
  by (simp add: testKey_def)

lemma remaining_least_loaded:
  "loadFiltered
     (loadByAuthID ''codex'' 1000
        (AList.delete (''codex'' @ '':'' @ testKey)
           [(''codex:x'', \<lparr>authID = ''b'', expiresAt = 2000, lastUsedAt = 500\<rparr>)]))
     (priorityFiltered
        [Some (testAuth ''a'' [] []), Some (testAuth ''b'' [(''priority'', AnyInt 10)] []),
         Some (testAuth ''c'' [(''priority'', AnyInt 10)] [])])
   = [Some (testAuth ''c'' [(''priority'', AnyInt 10)] [])]"
proof -
  have d: "AList.delete (''codex'' @ '':'' @ testKey)
           [(''codex:x'', \<lparr>authID = ''b'', expiresAt = 2000, lastUsedAt = 500\<rparr>)]
         = [(''codex:x'', \<lparr>authID = ''b'', expiresAt = 2000, lastUsedAt = 500\<rparr>)]"
    using testKey_other by (simp add: AList.delete_eq)
  have pf: "priorityFiltered
        [Some (testAuth ''a'' [] []), Some (testAuth ''b'' [(''priority'', AnyInt 10)] []),
         Some (testAuth ''c'' [(''priority'', AnyInt 10)] [])]
      = [Some (testAuth ''b'' [(''priority'', AnyInt 10)] []), Some (testAuth ''c'' [(''priority'', AnyInt 10)] [])]"
    by (simp add: priorityFiltered_def minPriority_def authPriority_testAuth_default
        authPriority_testAuth_int priority_sless)
  have lb: "loadByAuthID ''codex'' 1000 [(''codex:x'', \<lparr>authID = ''b'', expiresAt = 2000, lastUsedAt = 500\<rparr>)] ''b'' = 1"
    by (simp add: loadByAuthID_def HasPrefix_def time_After_def)
  have lc: "loadByAuthID ''codex'' 1000 [(''codex:x'', \<lparr>authID = ''b'', expiresAt = 2000, lastUsedAt = 500\<rparr>)] ''c'' = 0"
    by (simp add: loadByAuthID_def HasPrefix_def time_After_def)
  show ?thesis
    unfolding d pf
    by (simp add: loadFiltered_def minLoad_def minLoad_step_def ID_testAuth lb lc)
qed

lemma remaining_equal:
  "loadFiltered (loadByAuthID ''codex'' 1000 (AList.delete (''codex'' @ '':'' @ testKey) []))
     (priorityFiltered [Some (testAuth ''a'' [] []), Some (testAuth ''b'' [] [])])
   = [Some (testAuth ''a'' [] []), Some (testAuth ''b'' [] [])]"
proof -
  have pf: "priorityFiltered [Some (testAuth ''a'' [] []), Some (testAuth ''b'' [] [])]
      = [Some (testAuth ''a'' [] []), Some (testAuth ''b'' [] [])]"
    by (simp add: priorityFiltered_def minPriority_def authPriority_testAuth_default priority_sless priority_sless_refl)
  show ?thesis
    unfolding pf
    by (simp add: loadFiltered_def minLoad_def minLoad_step_def ID_testAuth loadByAuthID_def)
qed

lemma priorityFiltered_high:
  "priorityFiltered [Some (testAuth ''low'' [(''priority'', AnyInt 50)] []),
                     Some (testAuth ''high'' [(''priority'', AnyInt 10)] [])]
     = [Some (testAuth ''high'' [(''priority'', AnyInt 10)] [])]"
  by (simp add: priorityFiltered_def minPriority_def authPriority_testAuth_int priority_sless)

lemma getAvailableAuths_idless:
  "getAvailableAuths [Some (testAuth [] [] [])] ''codex'' ''gpt-test'' now = Inr [Some (testAuth [] [] [])]"
  by (rule getAvailableAuths_all_eligible) (simp_all add: eligible_testAuth)

subsection \<open>The callback parser\<close>

lemma parse_empty_state:
  assumes "parseOAuthCallbackInput url_Parse url_ParseQuery raw = Inr (code, state, errParam, uri)"
    and "state = []"
  shows "errParam \<noteq> [] \<and> code = []"
  using assms
  by (auto simp: parseOAuthCallbackInput_def Let_def split: if_splits sum.splits option.splits prod.splits)

lemma parseQuery_code_state: "url_ParseQuery_model ''code=abc&state=other'' = ([(''code'', [''abc'']), (''state'', [''other''])], None)"
  by code_simp

lemma parseQuery_error: "url_ParseQuery_model ''error=access_denied'' = ([(''error'', [''access_denied''])], None)"
  by code_simp

section \<open>Sticky sessions\<close>



section \<open>Session-key derivation\<close>

text \<open>
  Claim C2, as amended. For every request, \<open>extractStickySessionKey\<close> returns the key
  that the specification's priority order gives for the values of the request read with
  surrounding white space removed: \<open>codex:\<close> and \<open>sha256_16\<close> of the trimmed
  \<open>session_id\<close> header when that is non-empty; otherwise \<open>claude:\<close> and the 36
  characters out of \<open>a-f\<close>, \<open>0-9\<close> and the hyphen that follow the leftmost \<open>session_\<close>
  in the lower-cased, trimmed \<open>metadata.user_id\<close> of a non-empty body; otherwise
  \<open>apikey:\<close> and \<open>sha256_16\<close> of the bearer token of \<open>Authorization\<close>, else of the
  trimmed \<open>x-api-key\<close>, else of the trimmed \<open>x-goog-api-key\<close>; otherwise \<open>ua:\<close> and
  \<open>sha256_16\<close> of the trimmed \<open>User-Agent\<close>; otherwise the empty key. The checks of
  the code that a hash is non-empty never fail, and hashing trims nothing more.
\<close>

theorem session_key_derivation:
  "extractStickySessionKey gjson opts =
     sessionKey_spec
       (TrimSpace (Header_Get (Headers opts) ''session_id''))
       (if OriginalRequest opts \<noteq> []
        then claudeSessionRegex_Find (ToLower (TrimSpace (gjson (OriginalRequest opts) ''metadata.user_id'')))
        else None)
       (extractBearerToken (Header_Get (Headers opts) ''authorization''))
       (TrimSpace (Header_Get (Headers opts) ''x-api-key''))
       (TrimSpace (Header_Get (Headers opts) ''x-goog-api-key''))
       (TrimSpace (Header_Get (Headers opts) ''user-agent''))"
  by (rule extractStickySessionKey_refines)

text \<open>
  The claim as stated fails for a header that is not empty but blank: with a
  \<open>session_id\<close> header of one space and no other header the key is empty, not a
  \<open>codex:\<close> key.
\<close>

theorem session_key_blank_counterexample:
  "Header_Get [(''Session_id'', ['' ''])] ''session_id'' \<noteq> []
   \<and> extractStickySessionKey (\<lambda>body path. []) \<lparr>Headers = [(''Session_id'', ['' ''])], OriginalRequest = []\<rparr> = []"
  by code_simp

section \<open>Failover and recovery\<close>



section \<open>Priority\<close>

text \<open>
  Claim C4, as amended. The priority of a candidate is read from \<open>metadata.priority\<close>
  first, accepted as an int, a float (truncated towards zero) or a numeric string, then
  from \<open>attributes.priority\<close>, and is 50 when both are missing or not numeric (and for
  a nil candidate). \<open>Pick\<close> keeps exactly the eligible candidates whose priority value
  is the least; so for a session that has no unexpired binding to an eligible candidate,
  the record that \<open>Pick\<close> returns has the least priority value of all eligible
  candidates, whatever the session key, and \<open>Pick\<close> does return a record when every
  eligible candidate has an id (and the map has fewer than \<open>2^63\<close> entries, as every Go
  map has). The keys of the map are distinct, as the keys of a Go map are.
\<close>

theorem least_priority_selected:
  assumes sk: "extractStickySessionKey gjson opts = sk" "sk \<noteq> []"
    and av: "gaa auths provider model now = Inr av"
    and keys: "distinct (map fst (bindings s))"
    and nohit: "\<not> (\<exists>b a. map_of (bindings s) (provider @ '':'' @ sk) = Some b \<and> authID b \<noteq> []
                  \<and> now < expiresAt b \<and> Some a \<in> set av \<and> ID a = authID b)"
  shows "(\<forall>sel s'. Pick gjson gaa rrPick now provider model opts auths s = (Inr sel, s')
            \<longrightarrow> Some sel \<in> set av \<and> authPriority (Some sel) = minPriority av
                \<and> (\<forall>c \<in> set av. sint (authPriority (Some sel)) \<le> sint (authPriority c)))
     \<and> (av \<noteq> [] \<and> (\<forall>c \<in> set av. \<exists>a. c = Some a \<and> ID a \<noteq> []) \<and> length (bindings s) < 2 ^ 63
          \<longrightarrow> (\<exists>sel s'. Pick gjson gaa rrPick now provider model opts auths s = (Inr sel, s')))
     \<and> set (priorityFiltered av) = {c \<in> set av. \<forall>c' \<in> set av. sint (authPriority c) \<le> sint (authPriority c')}
     \<and> authPriority None = 50
     \<and> (\<forall>a. authPriority (Some a) =
          (let attribute = (case Atoi (TrimSpace (case map_of (Attributes a) ''priority'' of
                                                     Some x \<Rightarrow> x | None \<Rightarrow> [])) of
                              Some n \<Rightarrow> n
                            | None \<Rightarrow> 50)
           in case map_of (Metadata a) ''priority'' of
                Some (AnyInt n) \<Rightarrow> n
              | Some (AnyInt64 n) \<Rightarrow> n
              | Some (AnyFloat64 f) \<Rightarrow> float_to_int f
              | Some (AnyFloat32 f) \<Rightarrow> float_to_int f
              | Some (AnyString t) \<Rightarrow> (case Atoi (TrimSpace t) of Some n \<Rightarrow> n | None \<Rightarrow> attribute)
              | _ \<Rightarrow> attribute))
     \<and> (\<forall>q. - (2 ^ 63) \<le> q \<and> q \<le> 2 ^ 63 - 1
          \<longrightarrow> sint (float_to_int (FloatFinite q)) = (if 0 \<le> q then \<lfloor>q\<rfloor> else \<lceil>q\<rceil>))"
proof -
  from Pick_miss [where gaa = gaa and rrPick = rrPick, OF av sk keys nohit]
  obtain s2 where p: "Pick gjson gaa rrPick now provider model opts auths s
            = bindNew sk (provider @ '':'' @ sk) provider now av s2"
    and len: "length (bindings s2) \<le> length (bindings s)"
    by blast
  have 1: "\<forall>sel s'. Pick gjson gaa rrPick now provider model opts auths s = (Inr sel, s')
            \<longrightarrow> Some sel \<in> set av \<and> authPriority (Some sel) = minPriority av
                \<and> (\<forall>c \<in> set av. sint (authPriority (Some sel)) \<le> sint (authPriority c))"
  proof (intro allI impI)
    fix sel s'
    assume "Pick gjson gaa rrPick now provider model opts auths s = (Inr sel, s')"
    with p have "bindNew sk (provider @ '':'' @ sk) provider now av s2 = (Inr sel, s')" by simp
    from bindNew_selected [OF this]
    have "Some sel \<in> set av" "authPriority (Some sel) = minPriority av" by simp_all
    then show "Some sel \<in> set av \<and> authPriority (Some sel) = minPriority av
                \<and> (\<forall>c \<in> set av. sint (authPriority (Some sel)) \<le> sint (authPriority c))"
      by (simp add: minPriority_le)
  qed
  have 2: "av \<noteq> [] \<and> (\<forall>c \<in> set av. \<exists>a. c = Some a \<and> ID a \<noteq> []) \<and> length (bindings s) < 2 ^ 63
          \<longrightarrow> (\<exists>sel s'. Pick gjson gaa rrPick now provider model opts auths s = (Inr sel, s'))"
  proof
    assume a: "av \<noteq> [] \<and> (\<forall>c \<in> set av. \<exists>a. c = Some a \<and> ID a \<noteq> []) \<and> length (bindings s) < 2 ^ 63"
    with len have "length (bindings s2) < 2 ^ 63" by simp
    from bindNew_succeeds [OF sk(2) _ _ this, of av "provider @ '':'' @ sk" provider now] a p
    show "\<exists>sel s'. Pick gjson gaa rrPick now provider model opts auths s = (Inr sel, s')"
      by simp
  qed
  have 3: "set (priorityFiltered av) = {c \<in> set av. \<forall>c' \<in> set av. sint (authPriority c) \<le> sint (authPriority c')}"
  proof (cases "av = []")
    case True
    then show ?thesis by (simp add: priorityFiltered_def)
  next
    case False
    from minPriority_attained [OF False] obtain m where m: "m \<in> set av" "authPriority m = minPriority av"
      by blast
    show ?thesis
    proof (intro set_eqI iffI)
      fix c assume "c \<in> set (priorityFiltered av)"
      then have "c \<in> set av" "authPriority c = minPriority av" by (simp_all add: priorityFiltered_set)
      then show "c \<in> {c \<in> set av. \<forall>c' \<in> set av. sint (authPriority c) \<le> sint (authPriority c')}"
        by (simp add: minPriority_le)
    next
      fix c assume "c \<in> {c \<in> set av. \<forall>c' \<in> set av. sint (authPriority c) \<le> sint (authPriority c')}"
      then have c: "c \<in> set av" "\<forall>c' \<in> set av. sint (authPriority c) \<le> sint (authPriority c')" by simp_all
      from c(2) m have "sint (authPriority c) \<le> sint (minPriority av)" by metis
      with minPriority_le [OF c(1)] have "sint (authPriority c) = sint (minPriority av)" by simp
      then have "authPriority c = minPriority av" by (rule signed_word_eqI)
      with c(1) show "c \<in> set (priorityFiltered av)" by (simp add: priorityFiltered_set)
    qed
  qed
  from 1 2 3 authPriority_reading float_to_int_trunc show ?thesis by blast
qed

theorem least_priority_selected_witness:
  "\<exists>s'. Pick noUserID getAvailableAuths noRoundRobin 1000 ''codex'' ''gpt-test'' testOpts
           [Some (testAuth ''low'' [(''priority'', AnyInt 50)] []),
            Some (testAuth ''high'' [(''priority'', AnyInt 10)] [])]
           \<lparr>bindings = [], lastGC = 0, rr = ()\<rparr>
         = (Inr (testAuth ''high'' [(''priority'', AnyInt 10)] []), s')"
proof -
  let ?low = "testAuth ''low'' [(''priority'', AnyInt 50)] []"
  let ?high = "testAuth ''high'' [(''priority'', AnyInt 10)] []"
  let ?auths = "[Some ?low, Some ?high]"
  let ?s = "\<lparr>bindings = [], lastGC = 0, rr = ()\<rparr> :: unit StickySelector"
  have av: "getAvailableAuths ?auths ''codex'' ''gpt-test'' 1000 = Inr ?auths"
    by (rule getAvailableAuths_all_eligible) (simp_all add: eligible_testAuth)
  have keys: "distinct (map fst (bindings ?s))" by simp
  have nohit: "\<not> (\<exists>b a. map_of (bindings ?s) (''codex'' @ '':'' @ testKey) = Some b \<and> authID b \<noteq> []
                  \<and> 1000 < expiresAt b \<and> Some a \<in> set ?auths \<and> ID a = authID b)"
    by simp
  note t = least_priority_selected [where gaa = getAvailableAuths and rrPick = noRoundRobin,
      OF testOpts_key testKey_nonempty av keys nohit]
  have ok: "?auths \<noteq> [] \<and> (\<forall>c \<in> set ?auths. \<exists>a. c = Some a \<and> ID a \<noteq> []) \<and> length (bindings ?s) < 2 ^ 63"
    by (simp add: ID_testAuth)
  from t ok obtain sel s' where
    p: "Pick noUserID getAvailableAuths noRoundRobin 1000 ''codex'' ''gpt-test'' testOpts ?auths ?s = (Inr sel, s')"
    by blast
  with t have sel: "Some sel \<in> set ?auths"
    and le: "\<forall>c \<in> set ?auths. sint (authPriority (Some sel)) \<le> sint (authPriority c)"
    by blast+
  from le have "sint (authPriority (Some sel)) \<le> sint (authPriority (Some ?high))" by simp
  then have "sint (authPriority (Some sel)) \<le> 10" by (simp add: authPriority_testAuth_int)
  moreover have "sint (authPriority (Some ?low)) = 50" by (simp add: authPriority_testAuth_int)
  ultimately have "sel \<noteq> ?low" by auto
  with sel have "sel = ?high" by simp
  with p show ?thesis by blast
qed

text \<open>
  The claim as stated fails for a session with a live binding: the session \<open>s123\<close> is
  bound to the record \<open>low\<close> of priority 50, both \<open>low\<close> and the record \<open>high\<close> of
  priority 10 are eligible, and \<open>Pick\<close> returns \<open>low\<close>.
\<close>

theorem sticky_binding_beats_priority_counterexample:
  "sint (authPriority (Some (testAuth ''high'' [(''priority'', AnyInt 10)] [])))
     < sint (authPriority (Some (testAuth ''low'' [(''priority'', AnyInt 50)] [])))
   \<and> getAvailableAuths [Some (testAuth ''low'' [(''priority'', AnyInt 50)] []),
                         Some (testAuth ''high'' [(''priority'', AnyInt 10)] [])] ''codex'' ''gpt-test'' 5000
      = Inr [Some (testAuth ''low'' [(''priority'', AnyInt 50)] []),
             Some (testAuth ''high'' [(''priority'', AnyInt 10)] [])]
   \<and> fst (Pick noUserID getAvailableAuths noRoundRobin 5000 ''codex'' ''gpt-test'' testOpts
           [Some (testAuth ''low'' [(''priority'', AnyInt 50)] []),
            Some (testAuth ''high'' [(''priority'', AnyInt 10)] [])]
           \<lparr>bindings = [(''codex:'' @ extractStickySessionKey noUserID testOpts,
                          \<lparr>authID = ''low'', expiresAt = 7200, lastUsedAt = 3600\<rparr>)],
            lastGC = 4000, rr = ()\<rparr>)
      = Inr (testAuth ''low'' [(''priority'', AnyInt 50)] [])"
proof -
  let ?low = "testAuth ''low'' [(''priority'', AnyInt 50)] []"
  let ?high = "testAuth ''high'' [(''priority'', AnyInt 10)] []"
  let ?auths = "[Some ?low, Some ?high]"
  let ?b = "\<lparr>authID = ''low'', expiresAt = 7200, lastUsedAt = 3600\<rparr>"
  let ?s = "\<lparr>bindings = [(''codex:'' @ extractStickySessionKey noUserID testOpts, ?b)],
            lastGC = 4000, rr = ()\<rparr> :: unit StickySelector"
  have av: "getAvailableAuths ?auths ''codex'' ''gpt-test'' 5000 = Inr ?auths"
    by (rule getAvailableAuths_all_eligible) (simp_all add: eligible_testAuth)
  have b: "map_of (bindings ?s) (''codex'' @ '':'' @ testKey) = Some ?b"
    by (simp add: testOpts_key)
  have d: "distinct (candidateIDs ?auths)" by (simp add: candidateIDs_def ID_testAuth)
  have "Pick noUserID getAvailableAuths noRoundRobin 5000 ''codex'' ''gpt-test'' testOpts ?auths ?s =
     (Inr ?low, (gcIfDue 5000 ?s)\<lparr>bindings := AList.update (''codex'' @ '':'' @ testKey)
                               (freshBinding (ID ?low) 5000) (bindings (gcIfDue 5000 ?s))\<rparr>)"
    by (rule Pick_hit [where gaa = getAvailableAuths, OF av testOpts_key testKey_nonempty b])
       (simp_all add: ID_testAuth d)
  then show ?thesis
    using av by (simp add: authPriority_testAuth_int)
qed

section \<open>The rendezvous tie-break\<close>

text \<open>
  Claim C5. A session is new for binding purposes when it has no binding, or a binding
  that has expired, or one to a record that is not eligible. The candidates that remain
  for it after the priority filter and the load filter are the eligible records with an
  id whose priority value is the least and whose load is the least among those, where
  the load of a record is the number of live bindings of the provider to it, the
  session's own binding left out; so the remaining candidates have equal priority and
  equal load. \<open>Pick\<close> returns a record exactly when a candidate remains, and the
  record is a remaining candidate of the greatest score, the score of a candidate being
  the big-endian 64-bit number in the first 8 bytes of SHA-256 of the session key, a
  zero byte and the candidate's id; among the candidates of that score it is the one
  whose id is the smallest. Hence the id of the selected record is a function of the
  session key and the set of ids of the remaining candidates: the rendezvous choice
  from any list with that set of ids has the same id, and so has the record returned by
  any other run of \<open>Pick\<close> for the session key whose remaining candidates have the same
  ids. The keys of the map are distinct and fewer than \<open>2^63\<close>, as in every Go map.
\<close>

theorem rendezvous_tie_break:
  assumes sk: "extractStickySessionKey gjson opts = sk" "sk \<noteq> []"
    and av: "gaa auths provider model now = Inr av"
    and keys: "distinct (map fst (bindings s))"
    and nohit: "\<not> (\<exists>b a. map_of (bindings s) (provider @ '':'' @ sk) = Some b \<and> authID b \<noteq> []
                  \<and> now < expiresAt b \<and> Some a \<in> set av \<and> ID a = authID b)"
    and len: "length (bindings s) < 2 ^ 63"
    and load: "load = loadByAuthID provider now (AList.delete (provider @ '':'' @ sk) (bindings s))"
    and rem: "remaining = loadFiltered load (priorityFiltered av)"
  shows "(\<forall>x. x \<in> set remaining \<longleftrightarrow>
            (\<exists>c. x = Some c \<and> Some c \<in> set av \<and> ID c \<noteq> []
               \<and> (\<forall>c' \<in> set av. sint (authPriority (Some c)) \<le> sint (authPriority c'))
               \<and> (\<forall>c'. Some c' \<in> set av \<and> ID c' \<noteq> [] \<and> authPriority (Some c') = authPriority (Some c)
                      \<longrightarrow> load (ID c) \<le> load (ID c'))))
     \<and> (remaining \<noteq> [] \<longrightarrow> (\<exists>sel s'. Pick gjson gaa rrPick now provider model opts auths s = (Inr sel, s')))
     \<and> (\<forall>sel s'. Pick gjson gaa rrPick now provider model opts auths s = (Inr sel, s') \<longrightarrow>
           Some sel \<in> set remaining
         \<and> (\<forall>c. Some c \<in> set remaining \<longrightarrow>
               rendezvousScore sk (ID c) < rendezvousScore sk (ID sel)
               \<or> (rendezvousScore sk (ID c) = rendezvousScore sk (ID sel) \<and> ID sel \<le> ID c))
         \<and> rendezvousScore sk (ID sel) = BigEndian_Uint64 (take 8 (sha256_Sum256 (sk @ [CHR 0x00] @ ID sel)))
         \<and> (\<forall>av'. set (candidateIDs av') - {[]} = set (candidateIDs remaining)
               \<longrightarrow> map_option ID (pickRendezvous sk av') = Some (ID sel))
         \<and> (\<forall>gaa2 auths2 provider2 model2 now2 s2 av2 sel2 t2.
               gaa2 auths2 provider2 model2 now2 = Inr av2
               \<and> distinct (map fst (bindings s2))
               \<and> \<not> (\<exists>b a. map_of (bindings s2) (provider2 @ '':'' @ sk) = Some b \<and> authID b \<noteq> []
                        \<and> now2 < expiresAt b \<and> Some a \<in> set av2 \<and> ID a = authID b)
               \<and> set (candidateIDs
                        (loadFiltered
                           (loadByAuthID provider2 now2 (AList.delete (provider2 @ '':'' @ sk) (bindings s2)))
                           (priorityFiltered av2)))
                   = set (candidateIDs remaining)
               \<and> Pick gjson gaa2 rrPick now2 provider2 model2 opts auths2 s2 = (Inr sel2, t2)
               \<longrightarrow> ID sel2 = ID sel))"
proof (intro conjI allI impI)
  fix x
  have bound: "\<forall>aid. load aid \<le> 2 ^ 63 - 1"
  proof
    fix aid
    from loadByAuthID_delete_le [of provider now "provider @ '':'' @ sk" "bindings s" aid] len
    show "load aid \<le> 2 ^ 63 - 1" by (simp add: load)
  qed
  show "x \<in> set remaining \<longleftrightarrow>
            (\<exists>c. x = Some c \<and> Some c \<in> set av \<and> ID c \<noteq> []
               \<and> (\<forall>c' \<in> set av. sint (authPriority (Some c)) \<le> sint (authPriority c'))
               \<and> (\<forall>c'. Some c' \<in> set av \<and> ID c' \<noteq> [] \<and> authPriority (Some c') = authPriority (Some c)
                      \<longrightarrow> load (ID c) \<le> load (ID c')))"
  proof (cases x)
    case None
    with loadFiltered_Some [of x load "priorityFiltered av"] show ?thesis by (auto simp: rem)
  next
    case (Some c)
    with remaining_iff [OF bound, of c av] show ?thesis by (simp add: rem)
  qed
next
  assume ne: "remaining \<noteq> []"
  then obtain x where "x \<in> set remaining" by (cases remaining) auto
  with loadFiltered_Some [of x load "priorityFiltered av"] obtain c where c: "Some c \<in> set remaining" "ID c \<noteq> []"
    by (auto simp: rem)
  from pickRendezvous_exists [OF sk(2) c] obtain sel where "pickRendezvous sk remaining = Some sel"
    by blast
  with Pick_miss_rendezvous [where gaa = gaa and rrPick = rrPick, OF av sk keys nohit]
  have "fst (Pick gjson gaa rrPick now provider model opts auths s) = Inr sel"
    by (simp add: rem load)
  then show "\<exists>sel s'. Pick gjson gaa rrPick now provider model opts auths s = (Inr sel, s')"
    by (cases "Pick gjson gaa rrPick now provider model opts auths s") auto
next
  fix sel s'
  assume p: "Pick gjson gaa rrPick now provider model opts auths s = (Inr sel, s')"
  with Pick_miss_rendezvous [where gaa = gaa and rrPick = rrPick, OF av sk keys nohit]
  have pr: "pickRendezvous sk remaining = Some sel"
    by (simp add: rem load split: option.splits)
  from pickRendezvous_Some [OF pr] have mem: "Some sel \<in> set remaining"
    and mx: "\<forall>c. Some c \<in> set remaining \<and> ID c \<noteq> [] \<longrightarrow> \<not> beats sk (ID c) (ID sel)"
    by simp_all
  have ids: "ID c \<noteq> []" if "Some c \<in> set remaining" for c
    using that loadFiltered_Some [of "Some c" load "priorityFiltered av"] by (simp add: rem)
  have noempty: "set (candidateIDs remaining) - {[]} = set (candidateIDs remaining)"
    using ids by (auto simp: candidateIDs_set)
  show "Some sel \<in> set remaining" by (rule mem)
  show "rendezvousScore sk (ID sel) = BigEndian_Uint64 (take 8 (sha256_Sum256 (sk @ [CHR 0x00] @ ID sel)))"
    by (simp add: rendezvousScore_def)
  {
    fix c assume c: "Some c \<in> set remaining"
    with mx ids have "\<not> beats sk (ID c) (ID sel)" by blast
    then show "rendezvousScore sk (ID c) < rendezvousScore sk (ID sel)
           \<or> (rendezvousScore sk (ID c) = rendezvousScore sk (ID sel) \<and> ID sel \<le> ID c)"
      by (simp add: not_beats_iff)
  }
  {
    fix av' assume "set (candidateIDs av') - {[]} = set (candidateIDs remaining)"
    with noempty have "set (candidateIDs av') - {[]} = set (candidateIDs remaining) - {[]}" by simp
    from pickRendezvous_same_ids [OF pr this]
    show "map_option ID (pickRendezvous sk av') = Some (ID sel)" .
  }
  {
    fix gaa2 :: "Auth option list \<Rightarrow> string \<Rightarrow> string \<Rightarrow> time \<Rightarrow> Error + Auth option list"
    fix auths2 provider2 model2 now2 and s2 :: "'a StickySelector" and av2 sel2 t2
    let ?r2 = "loadFiltered
                 (loadByAuthID provider2 now2 (AList.delete (provider2 @ '':'' @ sk) (bindings s2)))
                 (priorityFiltered av2)"
    assume a: "gaa2 auths2 provider2 model2 now2 = Inr av2
               \<and> distinct (map fst (bindings s2))
               \<and> \<not> (\<exists>b a. map_of (bindings s2) (provider2 @ '':'' @ sk) = Some b \<and> authID b \<noteq> []
                        \<and> now2 < expiresAt b \<and> Some a \<in> set av2 \<and> ID a = authID b)
               \<and> set (candidateIDs ?r2) = set (candidateIDs remaining)
               \<and> Pick gjson gaa2 rrPick now2 provider2 model2 opts auths2 s2 = (Inr sel2, t2)"
    then have av2: "gaa2 auths2 provider2 model2 now2 = Inr av2"
      and keys2: "distinct (map fst (bindings s2))"
      and nohit2: "\<not> (\<exists>b a. map_of (bindings s2) (provider2 @ '':'' @ sk) = Some b \<and> authID b \<noteq> []
                        \<and> now2 < expiresAt b \<and> Some a \<in> set av2 \<and> ID a = authID b)"
      and same: "set (candidateIDs ?r2) = set (candidateIDs remaining)"
      and p2: "Pick gjson gaa2 rrPick now2 provider2 model2 opts auths2 s2 = (Inr sel2, t2)"
      by simp_all
    from Pick_miss_rendezvous [where gaa = gaa2 and rrPick = rrPick, OF av2 sk keys2 nohit2] p2
    have pr2: "pickRendezvous sk ?r2 = Some sel2"
      by (simp split: option.splits)
    from same have "set (candidateIDs ?r2) - {[]} = set (candidateIDs remaining) - {[]}" by simp
    from pickRendezvous_same_ids [OF pr this] pr2
    show "ID sel2 = ID sel" by simp
  }
qed

theorem rendezvous_tie_break_witness:
  "(\<exists>s'. Pick noUserID getAvailableAuths noRoundRobin 1000 ''codex'' ''gpt-test'' testOpts
        [Some (testAuth ''a'' [] []), Some (testAuth ''b'' [(''priority'', AnyInt 10)] []),
         Some (testAuth ''c'' [(''priority'', AnyInt 10)] [])]
        \<lparr>bindings = [(''codex:x'', \<lparr>authID = ''b'', expiresAt = 2000, lastUsedAt = 500\<rparr>)],
         lastGC = 900, rr = ()\<rparr>
      = (Inr (testAuth ''c'' [(''priority'', AnyInt 10)] []), s'))
   \<and> (\<exists>sel s'. Pick noUserID getAvailableAuths noRoundRobin 1000 ''codex'' ''gpt-test'' testOpts
        [Some (testAuth ''a'' [] []), Some (testAuth ''b'' [] [])] \<lparr>bindings = [], lastGC = 0, rr = ()\<rparr>
      = (Inr sel, s')
     \<and> (sel = testAuth ''a'' [] [] \<or> sel = testAuth ''b'' [] [])
     \<and> rendezvousScore testKey ''a'' \<le> rendezvousScore testKey (ID sel)
     \<and> rendezvousScore testKey ''b'' \<le> rendezvousScore testKey (ID sel)
     \<and> map_option ID (pickRendezvous testKey [Some (testAuth ''b'' [] []), None, Some (testAuth ''a'' [] [])])
        = Some (ID sel))"
proof
  let ?a = "testAuth ''a'' [] []"
  let ?b = "testAuth ''b'' [(''priority'', AnyInt 10)] []"
  let ?c = "testAuth ''c'' [(''priority'', AnyInt 10)] []"
  let ?auths = "[Some ?a, Some ?b, Some ?c]"
  let ?bs = "[(''codex:x'', \<lparr>authID = ''b'', expiresAt = 2000, lastUsedAt = 500\<rparr>)]"
  let ?s = "\<lparr>bindings = ?bs, lastGC = 900, rr = ()\<rparr> :: unit StickySelector"
  have av: "getAvailableAuths ?auths ''codex'' ''gpt-test'' 1000 = Inr ?auths"
    by (rule getAvailableAuths_all_eligible) (simp_all add: eligible_testAuth)
  have keys: "distinct (map fst (bindings ?s))" by simp
  have nohit: "\<not> (\<exists>b a. map_of (bindings ?s) (''codex'' @ '':'' @ testKey) = Some b \<and> authID b \<noteq> []
                  \<and> 1000 < expiresAt b \<and> Some a \<in> set ?auths \<and> ID a = authID b)"
    using testKey_other by simp
  have len: "length (bindings ?s) < 2 ^ 63" by simp
  note t = rendezvous_tie_break [where gaa = getAvailableAuths and rrPick = noRoundRobin,
      OF testOpts_key testKey_nonempty av keys nohit len refl refl]
  have r: "loadFiltered (loadByAuthID ''codex'' 1000 (AList.delete (''codex'' @ '':'' @ testKey) (bindings ?s)))
             (priorityFiltered ?auths) = [Some ?c]"
    using remaining_least_loaded by simp
  from t r obtain sel s' where
    p: "Pick noUserID getAvailableAuths noRoundRobin 1000 ''codex'' ''gpt-test'' testOpts ?auths ?s = (Inr sel, s')"
    by (metis list.distinct(1))
  with t r have "Some sel \<in> set [Some ?c]" by metis
  then have "sel = ?c" by simp
  with p show "\<exists>s'. Pick noUserID getAvailableAuths noRoundRobin 1000 ''codex'' ''gpt-test'' testOpts ?auths ?s
      = (Inr ?c, s')"
    by blast
next
  let ?a = "testAuth ''a'' [] []"
  let ?b = "testAuth ''b'' [] []"
  let ?auths = "[Some ?a, Some ?b]"
  let ?s = "\<lparr>bindings = [], lastGC = 0, rr = ()\<rparr> :: unit StickySelector"
  have av: "getAvailableAuths ?auths ''codex'' ''gpt-test'' 1000 = Inr ?auths"
    by (rule getAvailableAuths_all_eligible) (simp_all add: eligible_testAuth)
  have keys: "distinct (map fst (bindings ?s))" by simp
  have nohit: "\<not> (\<exists>b a. map_of (bindings ?s) (''codex'' @ '':'' @ testKey) = Some b \<and> authID b \<noteq> []
                  \<and> 1000 < expiresAt b \<and> Some a \<in> set ?auths \<and> ID a = authID b)"
    by simp
  have len: "length (bindings ?s) < 2 ^ 63" by simp
  note t = rendezvous_tie_break [where gaa = getAvailableAuths and rrPick = noRoundRobin,
      OF testOpts_key testKey_nonempty av keys nohit len refl refl]
  have r: "loadFiltered (loadByAuthID ''codex'' 1000 (AList.delete (''codex'' @ '':'' @ testKey) (bindings ?s)))
             (priorityFiltered ?auths) = ?auths"
    using remaining_equal by simp
  from t r obtain sel s' where
    p: "Pick noUserID getAvailableAuths noRoundRobin 1000 ''codex'' ''gpt-test'' testOpts ?auths ?s = (Inr sel, s')"
    by (metis list.distinct(1))
  from t p have c: "Some sel \<in> set (loadFiltered (loadByAuthID ''codex'' 1000
                   (AList.delete (''codex'' @ '':'' @ testKey) (bindings ?s))) (priorityFiltered ?auths))
         \<and> (\<forall>c. Some c \<in> set (loadFiltered (loadByAuthID ''codex'' 1000
                   (AList.delete (''codex'' @ '':'' @ testKey) (bindings ?s))) (priorityFiltered ?auths)) \<longrightarrow>
               rendezvousScore testKey (ID c) < rendezvousScore testKey (ID sel)
               \<or> (rendezvousScore testKey (ID c) = rendezvousScore testKey (ID sel) \<and> ID sel \<le> ID c))
         \<and> rendezvousScore testKey (ID sel) = BigEndian_Uint64 (take 8 (sha256_Sum256 (testKey @ [CHR 0x00] @ ID sel)))
         \<and> (\<forall>av'. set (candidateIDs av') - {[]} = set (candidateIDs (loadFiltered (loadByAuthID ''codex'' 1000
                   (AList.delete (''codex'' @ '':'' @ testKey) (bindings ?s))) (priorityFiltered ?auths)))
               \<longrightarrow> map_option ID (pickRendezvous testKey av') = Some (ID sel))"
    by blast
  note c' = c [unfolded r]
  have mem: "Some sel \<in> set ?auths" by (rule c' [THEN conjunct1])
  have best: "\<forall>c. Some c \<in> set ?auths \<longrightarrow>
               rendezvousScore testKey (ID c) < rendezvousScore testKey (ID sel)
               \<or> (rendezvousScore testKey (ID c) = rendezvousScore testKey (ID sel) \<and> ID sel \<le> ID c)"
    by (rule c' [THEN conjunct2, THEN conjunct1])
  have det: "\<forall>av'. set (candidateIDs av') - {[]} = set (candidateIDs ?auths)
               \<longrightarrow> map_option ID (pickRendezvous testKey av') = Some (ID sel)"
    by (rule c' [THEN conjunct2, THEN conjunct2, THEN conjunct2])
  from best have "rendezvousScore testKey (ID ?a) \<le> rendezvousScore testKey (ID sel)"
    "rendezvousScore testKey (ID ?b) \<le> rendezvousScore testKey (ID sel)"
    by (auto simp: order.order_iff_strict)
  then have le: "rendezvousScore testKey ''a'' \<le> rendezvousScore testKey (ID sel)"
    "rendezvousScore testKey ''b'' \<le> rendezvousScore testKey (ID sel)"
    by (simp_all add: ID_testAuth)
  have "set (candidateIDs [Some ?b, None, Some ?a]) - {[]} = set (candidateIDs ?auths)"
    by (auto simp: candidateIDs_def ID_testAuth)
  with det have d: "map_option ID (pickRendezvous testKey [Some ?b, None, Some ?a]) = Some (ID sel)"
    by blast
  from mem have "sel = ?a \<or> sel = ?b" by simp
  with p le d show "\<exists>sel s'. Pick noUserID getAvailableAuths noRoundRobin 1000 ''codex'' ''gpt-test'' testOpts
        ?auths ?s = (Inr sel, s')
     \<and> (sel = ?a \<or> sel = ?b)
     \<and> rendezvousScore testKey ''a'' \<le> rendezvousScore testKey (ID sel)
     \<and> rendezvousScore testKey ''b'' \<le> rendezvousScore testKey (ID sel)
     \<and> map_option ID (pickRendezvous testKey [Some ?b, None, Some ?a]) = Some (ID sel)"
    by blast
qed

section \<open>Garbage collection\<close>

text \<open>
  Claim C6. The collection is to remove exactly the bindings whose \<open>expiresAt\<close> is at
  most \<open>now\<close> or whose \<open>authID\<close> is empty. The code departs from that at the
  boundary: \<open>gcLocked\<close> asks \<open>now.After(expiresAt)\<close>, so a binding whose \<open>expiresAt\<close>
  equals \<open>now\<close> stays in the map, when the collection is called and when a \<open>Pick\<close>
  for another session triggers it (\<open>lastGC\<close> is zero). The lookup of \<open>Pick\<close> asks
  \<open>now.Before(expiresAt)\<close> and takes such a binding for expired: a session whose
  binding to the record \<open>low\<close> expires at \<open>now\<close> is bound anew, to the record \<open>high\<close>
  of the lower priority value. Everywhere else the collection does what the claim says
  (\<open>gcLocked_lookup\<close>).
\<close>

theorem gc_keeps_binding_expiring_now:
  "map_of (bindings (gcLocked 7200
       \<lparr>bindings = [(''codex:x'', \<lparr>authID = ''a'', expiresAt = 7200, lastUsedAt = 3600\<rparr>)],
        lastGC = 0, rr = ()\<rparr>)) ''codex:x''
      = Some \<lparr>authID = ''a'', expiresAt = 7200, lastUsedAt = 3600\<rparr>
   \<and> map_of (bindings (snd (Pick noUserID getAvailableAuths noRoundRobin 7200 ''codex'' ''gpt-test'' testOpts
         [Some (testAuth ''a'' [] [])]
         \<lparr>bindings = [(''codex:x'', \<lparr>authID = ''a'', expiresAt = 7200, lastUsedAt = 3600\<rparr>)],
          lastGC = 0, rr = ()\<rparr>))) ''codex:x''
      = Some \<lparr>authID = ''a'', expiresAt = 7200, lastUsedAt = 3600\<rparr>
   \<and> fst (Pick noUserID getAvailableAuths noRoundRobin 7200 ''codex'' ''gpt-test'' testOpts
           [Some (testAuth ''low'' [(''priority'', AnyInt 50)] []),
            Some (testAuth ''high'' [(''priority'', AnyInt 10)] [])]
           \<lparr>bindings = [(''codex:'' @ extractStickySessionKey noUserID testOpts,
                          \<lparr>authID = ''low'', expiresAt = 7200, lastUsedAt = 3600\<rparr>)],
            lastGC = 7100, rr = ()\<rparr>)
      = Inr (testAuth ''high'' [(''priority'', AnyInt 10)] [])"
proof (intro conjI)
  show "map_of (bindings (gcLocked 7200
       \<lparr>bindings = [(''codex:x'', \<lparr>authID = ''a'', expiresAt = 7200, lastUsedAt = 3600\<rparr>)],
        lastGC = 0, rr = ()\<rparr>)) ''codex:x''
      = Some \<lparr>authID = ''a'', expiresAt = 7200, lastUsedAt = 3600\<rparr>"
    by (simp add: gcLocked_def time_After_def)
next
  let ?auths = "[Some (testAuth ''a'' [] [])]"
  let ?s = "\<lparr>bindings = [(''codex:x'', \<lparr>authID = ''a'', expiresAt = 7200, lastUsedAt = 3600\<rparr>)],
          lastGC = 0, rr = ()\<rparr> :: unit StickySelector"
  have av: "getAvailableAuths ?auths ''codex'' ''gpt-test'' 7200 = Inr ?auths"
    by (rule getAvailableAuths_all_eligible) (simp_all add: eligible_testAuth)
  have keys: "distinct (map fst (bindings ?s))" by simp
  have key: "extractStickySessionKey noUserID testOpts \<noteq> []"
    by (simp add: testOpts_key testKey_nonempty)
  have other: "''codex:x'' \<noteq> ''codex'' @ '':'' @ extractStickySessionKey noUserID testOpts"
    using testKey_other by (simp add: testOpts_key)
  from Pick_other_bindings [where gaa = getAvailableAuths and rrPick = noRoundRobin, OF keys av key other]
  show "map_of (bindings (snd (Pick noUserID getAvailableAuths noRoundRobin 7200 ''codex'' ''gpt-test'' testOpts
         ?auths ?s))) ''codex:x''
      = Some \<lparr>authID = ''a'', expiresAt = 7200, lastUsedAt = 3600\<rparr>"
    by simp
next
  let ?low = "testAuth ''low'' [(''priority'', AnyInt 50)] []"
  let ?high = "testAuth ''high'' [(''priority'', AnyInt 10)] []"
  let ?auths = "[Some ?low, Some ?high]"
  let ?s = "\<lparr>bindings = [(''codex:'' @ extractStickySessionKey noUserID testOpts,
                          \<lparr>authID = ''low'', expiresAt = 7200, lastUsedAt = 3600\<rparr>)],
            lastGC = 7100, rr = ()\<rparr> :: unit StickySelector"
  have av: "getAvailableAuths ?auths ''codex'' ''gpt-test'' 7200 = Inr ?auths"
    by (rule getAvailableAuths_all_eligible) (simp_all add: eligible_testAuth)
  have keys: "distinct (map fst (bindings ?s))" by simp
  have nohit: "\<not> (\<exists>b a. map_of (bindings ?s) (''codex'' @ '':'' @ testKey) = Some b \<and> authID b \<noteq> []
                  \<and> 7200 < expiresAt b \<and> Some a \<in> set ?auths \<and> ID a = authID b)"
    by (simp add: testOpts_key)
  have r: "pickRendezvous testKey
             (loadFiltered (loadByAuthID ''codex'' 7200 (AList.delete (''codex'' @ '':'' @ testKey) (bindings ?s)))
                (priorityFiltered ?auths)) = Some ?high"
    unfolding priorityFiltered_high
    using testKey_nonempty
    by (simp add: testOpts_key loadFiltered_def minLoad_def minLoad_step_def ID_testAuth loadByAuthID_def
        pickRendezvous_def pickRendezvous_step_def)
  from Pick_miss_rendezvous [where gaa = getAvailableAuths and rrPick = noRoundRobin,
      OF av testOpts_key testKey_nonempty keys nohit]
  show "fst (Pick noUserID getAvailableAuths noRoundRobin 7200 ''codex'' ''gpt-test'' testOpts ?auths ?s)
      = Inr ?high"
    unfolding r by simp
qed

section \<open>No candidate\<close>

text \<open>
  Claim C7, as amended. When the eligibility filter fails (every candidate is
  ineligible), \<open>Pick\<close> returns the filter's error and the selector, its bindings
  included, is exactly what it was. When the filter succeeds for a request with a
  session key and no eligible candidate has an id, \<open>Pick\<close> fails with the error
  \<open>auth_not_found\<close>. And a \<open>Pick\<close> that fails creates and refreshes no binding: every
  binding of the map after the call is a binding of the map before it, unchanged. When
  \<open>Pick\<close> itself raises the error, the map after the call is the map before it less
  the bindings that the collection removed, if it was due, and less the session's own
  binding, if that had an empty \<open>authID\<close> or an \<open>expiresAt\<close> of at most \<open>now\<close>. The
  keys of the map are distinct, as the keys of a Go map are.
\<close>

theorem pick_failure_creates_no_binding:
  assumes keys: "distinct (map fst (bindings s))"
  shows "(\<forall>err. gaa auths provider model now = Inl err
            \<longrightarrow> Pick gjson gaa rrPick now provider model opts auths s = (Inl err, s))
     \<and> (\<forall>av. gaa auths provider model now = Inr av \<and> extractStickySessionKey gjson opts \<noteq> []
              \<and> (\<forall>c. Some c \<in> set av \<longrightarrow> ID c = [])
            \<longrightarrow> (\<exists>s'. Pick gjson gaa rrPick now provider model opts auths s
                      = (Inl \<lparr>Code = ''auth_not_found'', Message = ''no auth available''\<rparr>, s')))
     \<and> (\<forall>e s'. Pick gjson gaa rrPick now provider model opts auths s = (Inl e, s') \<longrightarrow>
           (\<forall>k v. map_of (bindings s') k = Some v \<longrightarrow> map_of (bindings s) k = Some v)
         \<and> (\<forall>av. gaa auths provider model now = Inr av \<and> extractStickySessionKey gjson opts \<noteq> [] \<longrightarrow>
               e = \<lparr>Code = ''auth_not_found'', Message = ''no auth available''\<rparr>
             \<and> (\<forall>k. map_of (bindings s') k =
                   (if k = provider @ '':'' @ extractStickySessionKey gjson opts
                       \<and> (\<exists>v. map_of (bindings s) k = Some v \<and> (authID v = [] \<or> expiresAt v \<le> now))
                    then None
                    else if stickyGCMinEntries \<le> length (bindings s) \<or> lastGC s = 0
                            \<or> stickyGCInterval \<le> now - lastGC s
                         then (case map_of (bindings s) k of
                                 None \<Rightarrow> None
                               | Some v \<Rightarrow> if authID v = [] \<or> expiresAt v < now then None else Some v)
                         else map_of (bindings s) k))))"
proof (intro conjI allI impI)
  fix err
  assume "gaa auths provider model now = Inl err"
  then show "Pick gjson gaa rrPick now provider model opts auths s = (Inl err, s)"
    by (simp add: Pick_def)
next
  fix av
  assume a: "gaa auths provider model now = Inr av \<and> extractStickySessionKey gjson opts \<noteq> []
              \<and> (\<forall>c. Some c \<in> set av \<longrightarrow> ID c = [])"
  then have av: "gaa auths provider model now = Inr av"
    and key: "extractStickySessionKey gjson opts \<noteq> []"
    and none: "\<forall>c. Some c \<in> set av \<longrightarrow> ID c = []"
    by simp_all
  from Pick_no_usable [where gaa = gaa and rrPick = rrPick, OF av refl key none]
  show "\<exists>s'. Pick gjson gaa rrPick now provider model opts auths s
                      = (Inl \<lparr>Code = ''auth_not_found'', Message = ''no auth available''\<rparr>, s')" .
next
  fix e s' k v
  assume "Pick gjson gaa rrPick now provider model opts auths s = (Inl e, s')"
    and "map_of (bindings s') k = Some v"
  with keys show "map_of (bindings s) k = Some v" by (rule Pick_Inl_frame)
next
  fix e s' av
  assume fail: "Pick gjson gaa rrPick now provider model opts auths s = (Inl e, s')"
    and a: "gaa auths provider model now = Inr av \<and> extractStickySessionKey gjson opts \<noteq> []"
  then have av: "gaa auths provider model now = Inr av"
    and key: "extractStickySessionKey gjson opts \<noteq> []"
    by simp_all
  from Pick_Inl [where gaa = gaa and rrPick = rrPick, OF av refl key keys fail]
  show "e = \<lparr>Code = ''auth_not_found'', Message = ''no auth available''\<rparr>" by (rule conjunct1)
next
  fix e s' av k
  assume fail: "Pick gjson gaa rrPick now provider model opts auths s = (Inl e, s')"
    and a: "gaa auths provider model now = Inr av \<and> extractStickySessionKey gjson opts \<noteq> []"
  then have av: "gaa auths provider model now = Inr av"
    and key: "extractStickySessionKey gjson opts \<noteq> []"
    by simp_all
  from Pick_Inl [where gaa = gaa and rrPick = rrPick, OF av refl key keys fail]
  show "map_of (bindings s') k =
                   (if k = provider @ '':'' @ extractStickySessionKey gjson opts
                       \<and> (\<exists>v. map_of (bindings s) k = Some v \<and> (authID v = [] \<or> expiresAt v \<le> now))
                    then None
                    else if stickyGCMinEntries \<le> length (bindings s) \<or> lastGC s = 0
                            \<or> stickyGCInterval \<le> now - lastGC s
                         then (case map_of (bindings s) k of
                                 None \<Rightarrow> None
                               | Some v \<Rightarrow> if authID v = [] \<or> expiresAt v < now then None else Some v)
                         else map_of (bindings s) k)"
    by (rule conjunct2 [THEN spec])
qed

theorem pick_failure_creates_no_binding_witness:
  "Pick noUserID getAvailableAuths noRoundRobin 7200 ''codex'' ''gpt-test'' testOpts
          [Some \<lparr>ID = ''a'', Provider = ''codex'', Status = StatusActive, Disabled = True, Metadata = [],
                  Attributes = [], Quota = \<lparr>Exceeded = False, Reason = [], NextRecoverAt = 0, BackoffLevel = 0\<rparr>,
                  ModelStates = []\<rparr>,
           Some \<lparr>ID = ''b'', Provider = ''codex'', Status = StatusActive, Disabled = False, Metadata = [],
                  Attributes = [], Quota = \<lparr>Exceeded = True, Reason = ''quota'', NextRecoverAt = 9000, BackoffLevel = 1\<rparr>,
                  ModelStates = []\<rparr>]
          \<lparr>bindings = [(''codex:x'', \<lparr>authID = ''a'', expiresAt = 7140, lastUsedAt = 3540\<rparr>)],
           lastGC = 0, rr = ()\<rparr>
        = (Inl \<lparr>Code = ''auth_not_found'', Message = ''no auth available''\<rparr>,
           \<lparr>bindings = [(''codex:x'', \<lparr>authID = ''a'', expiresAt = 7140, lastUsedAt = 3540\<rparr>)],
            lastGC = 0, rr = ()\<rparr>)
   \<and> (\<exists>s'. Pick noUserID getAvailableAuths noRoundRobin 7200 ''codex'' ''gpt-test'' testOpts
              [Some (testAuth [] [] [])]
              \<lparr>bindings = [(''codex:x'', \<lparr>authID = ''a'', expiresAt = 7260, lastUsedAt = 3660\<rparr>)],
               lastGC = 7100, rr = ()\<rparr>
            = (Inl \<lparr>Code = ''auth_not_found'', Message = ''no auth available''\<rparr>, s')
          \<and> map_of (bindings s') ''codex:x'' = Some \<lparr>authID = ''a'', expiresAt = 7260, lastUsedAt = 3660\<rparr>
          \<and> map_of (bindings s') (''codex:'' @ testKey) = None)"
proof
  let ?auths = "[Some \<lparr>ID = ''a'', Provider = ''codex'', Status = StatusActive, Disabled = True, Metadata = [],
                  Attributes = [], Quota = \<lparr>Exceeded = False, Reason = [], NextRecoverAt = 0, BackoffLevel = 0\<rparr>,
                  ModelStates = []\<rparr>,
           Some \<lparr>ID = ''b'', Provider = ''codex'', Status = StatusActive, Disabled = False, Metadata = [],
                  Attributes = [], Quota = \<lparr>Exceeded = True, Reason = ''quota'', NextRecoverAt = 9000, BackoffLevel = 1\<rparr>,
                  ModelStates = []\<rparr>]"
  let ?s = "\<lparr>bindings = [(''codex:x'', \<lparr>authID = ''a'', expiresAt = 7140, lastUsedAt = 3540\<rparr>)],
           lastGC = 0, rr = ()\<rparr> :: unit StickySelector"
  have g: "getAvailableAuths ?auths ''codex'' ''gpt-test'' 7200
      = Inl \<lparr>Code = ''auth_not_found'', Message = ''no auth available''\<rparr>"
    by (simp add: getAvailableAuths_def eligible_def quotaForbids_def)
  have keys: "distinct (map fst (bindings ?s))" by simp
  from pick_failure_creates_no_binding [OF keys, of getAvailableAuths ?auths "''codex''" "''gpt-test''" 7200
      noUserID noRoundRobin testOpts] g
  show "Pick noUserID getAvailableAuths noRoundRobin 7200 ''codex'' ''gpt-test'' testOpts ?auths ?s
        = (Inl \<lparr>Code = ''auth_not_found'', Message = ''no auth available''\<rparr>, ?s)"
    by blast
next
  let ?auths = "[Some (testAuth [] [] [])]"
  let ?b = "\<lparr>authID = ''a'', expiresAt = 7260, lastUsedAt = 3660\<rparr>"
  let ?s = "\<lparr>bindings = [(''codex:x'', ?b)], lastGC = 7100, rr = ()\<rparr> :: unit StickySelector"
  have keys: "distinct (map fst (bindings ?s))" by simp
  have key: "extractStickySessionKey noUserID testOpts \<noteq> []"
    by (simp add: testOpts_key testKey_nonempty)
  have none: "\<forall>c. Some c \<in> set ?auths \<longrightarrow> ID c = []" by (simp add: ID_testAuth)
  note t = pick_failure_creates_no_binding [OF keys, of getAvailableAuths ?auths "''codex''" "''gpt-test''" 7200
      noUserID noRoundRobin testOpts]
  from t getAvailableAuths_idless key none obtain s' where
    p: "Pick noUserID getAvailableAuths noRoundRobin 7200 ''codex'' ''gpt-test'' testOpts ?auths ?s
          = (Inl \<lparr>Code = ''auth_not_found'', Message = ''no auth available''\<rparr>, s')"
    by blast
  note m = t [THEN conjunct2, THEN conjunct2, rule_format, OF p, THEN conjunct2, rule_format,
      OF conjI [OF getAvailableAuths_idless key], THEN conjunct2, THEN spec]
  have 1: "map_of (bindings s') ''codex:x'' = Some ?b"
    unfolding m by (simp add: stickyGCMinEntries_def stickyGCInterval_def time_Minute_def)
  have 2: "map_of (bindings s') (''codex:'' @ testKey) = None"
    unfolding m using testKey_other
    by (simp add: stickyGCMinEntries_def stickyGCInterval_def time_Minute_def)
  from p 1 2 show "\<exists>s'. Pick noUserID getAvailableAuths noRoundRobin 7200 ''codex'' ''gpt-test'' testOpts ?auths ?s
            = (Inl \<lparr>Code = ''auth_not_found'', Message = ''no auth available''\<rparr>, s')
          \<and> map_of (bindings s') ''codex:x'' = Some ?b
          \<and> map_of (bindings s') (''codex:'' @ testKey) = None"
    by blast
qed

text \<open>
  The claim as stated fails where \<open>Pick\<close> itself finds no candidate: the only
  candidate has no id, the binding of the session \<open>s123\<close> has expired, no collection is
  due, and after the failed call the binding is gone from the map.
\<close>

theorem expired_binding_deleted_counterexample:
  "map_of (bindings \<lparr>bindings = [(''codex:'' @ extractStickySessionKey noUserID testOpts,
                                   \<lparr>authID = ''a'', expiresAt = 7000, lastUsedAt = 3400\<rparr>)],
                     lastGC = 7100, rr = ()\<rparr>)
      (''codex:'' @ extractStickySessionKey noUserID testOpts)
     = Some \<lparr>authID = ''a'', expiresAt = 7000, lastUsedAt = 3400\<rparr>
   \<and> fst (Pick noUserID getAvailableAuths noRoundRobin 7200 ''codex'' ''gpt-test'' testOpts
            [Some (testAuth [] [] [])]
            \<lparr>bindings = [(''codex:'' @ extractStickySessionKey noUserID testOpts,
                           \<lparr>authID = ''a'', expiresAt = 7000, lastUsedAt = 3400\<rparr>)],
             lastGC = 7100, rr = ()\<rparr>)
       = Inl \<lparr>Code = ''auth_not_found'', Message = ''no auth available''\<rparr>
   \<and> map_of (bindings (snd (Pick noUserID getAvailableAuths noRoundRobin 7200 ''codex'' ''gpt-test'' testOpts
            [Some (testAuth [] [] [])]
            \<lparr>bindings = [(''codex:'' @ extractStickySessionKey noUserID testOpts,
                           \<lparr>authID = ''a'', expiresAt = 7000, lastUsedAt = 3400\<rparr>)],
             lastGC = 7100, rr = ()\<rparr>)))
      (''codex:'' @ extractStickySessionKey noUserID testOpts)
     = None"
proof -
  let ?auths = "[Some (testAuth [] [] [])]"
  let ?old = "\<lparr>authID = ''a'', expiresAt = 7000, lastUsedAt = 3400\<rparr>"
  let ?s = "\<lparr>bindings = [(''codex:'' @ extractStickySessionKey noUserID testOpts, ?old)],
             lastGC = 7100, rr = ()\<rparr> :: unit StickySelector"
  have keys: "distinct (map fst (bindings ?s))" by simp
  have none: "\<forall>c. Some c \<in> set ?auths \<longrightarrow> ID c = []" by (simp add: ID_testAuth)
  from Pick_no_usable [where gaa = getAvailableAuths and rrPick = noRoundRobin,
      OF getAvailableAuths_idless testOpts_key testKey_nonempty none]
  obtain s' where
    p: "Pick noUserID getAvailableAuths noRoundRobin 7200 ''codex'' ''gpt-test'' testOpts ?auths ?s
          = (Inl \<lparr>Code = ''auth_not_found'', Message = ''no auth available''\<rparr>, s')"
    by blast
  from Pick_Inl [where gaa = getAvailableAuths and rrPick = noRoundRobin,
      OF getAvailableAuths_idless testOpts_key testKey_nonempty keys p]
  have "map_of (bindings s') (''codex'' @ '':'' @ testKey) = None"
    by (simp add: testOpts_key)
  with p show ?thesis by (simp add: testOpts_key)
qed

section \<open>Validation of the callback state\<close>

text \<open>
  Claim C8, as amended. For every non-empty expected state and every callback input,
  validation succeeds only when the state of the callback equals the expected state, or
  the callback has no state and carries an error parameter (and then no code); and it
  fails with the state-mismatch error for every callback that parses with a non-empty
  state different from the expected one.
\<close>

theorem callback_state_checked:
  assumes expected: "expectedState \<noteq> []"
  shows "(\<forall>cb uri. parseAndValidateCallbackInput url_Parse url_ParseQuery expectedState raw = Inr (cb, uri)
            \<longrightarrow> cbState cb = expectedState \<or> (cbState cb = [] \<and> cbError cb \<noteq> [] \<and> cbCode cb = []))
     \<and> (\<forall>code state errParam uri.
            parseOAuthCallbackInput url_Parse url_ParseQuery raw = Inr (code, state, errParam, uri)
            \<and> state \<noteq> [] \<and> state \<noteq> expectedState
            \<longrightarrow> parseAndValidateCallbackInput url_Parse url_ParseQuery expectedState raw = Inl StateMismatch)"
proof (intro conjI allI impI)
  fix cb uri
  assume ok: "parseAndValidateCallbackInput url_Parse url_ParseQuery expectedState raw = Inr (cb, uri)"
  then obtain code state errParam where
    p: "parseOAuthCallbackInput url_Parse url_ParseQuery raw = Inr (code, state, errParam, uri)"
    and cb: "cb = \<lparr>cbCode = code, cbState = state, cbError = errParam\<rparr>"
    and chk: "\<not> (expectedState \<noteq> [] \<and> state \<noteq> [] \<and> state \<noteq> expectedState)"
    by (auto simp: parseAndValidateCallbackInput_def split: sum.splits prod.splits if_splits)
  show "cbState cb = expectedState \<or> (cbState cb = [] \<and> cbError cb \<noteq> [] \<and> cbCode cb = [])"
  proof (cases "state = []")
    case True
    with parse_empty_state [OF p] cb show ?thesis by simp
  next
    case False
    with chk expected cb show ?thesis by simp
  qed
next
  fix code state errParam uri
  assume "parseOAuthCallbackInput url_Parse url_ParseQuery raw = Inr (code, state, errParam, uri)
            \<and> state \<noteq> [] \<and> state \<noteq> expectedState"
  with expected show "parseAndValidateCallbackInput url_Parse url_ParseQuery expectedState raw = Inl StateMismatch"
    by (simp add: parseAndValidateCallbackInput_def)
qed

theorem callback_state_checked_witness:
  "parseOAuthCallbackInput (\<lambda>u. Inl []) url_ParseQuery_model ''code=abc&state=other''
      = Inr (''abc'', ''other'', [], [])
   \<and> parseAndValidateCallbackInput (\<lambda>u. Inl []) url_ParseQuery_model ''expected'' ''code=abc&state=other''
      = Inl StateMismatch"
proof -
  have t: "TrimSpace ''code=abc&state=other'' = ''code=abc&state=other''" by code_simp
  have p: "parseOAuthCallbackInput (\<lambda>u. Inl []) url_ParseQuery_model ''code=abc&state=other''
      = Inr (''abc'', ''other'', [], [])"
    by (simp add: parseOAuthCallbackInput_def t parseQuery_code_state HasPrefix_def Values_Get_def)
  have e: "''expected'' \<noteq> []" by simp
  from callback_state_checked [OF e, of "\<lambda>u. Inl []" url_ParseQuery_model "''code=abc&state=other''"] p
  show ?thesis by simp
qed

text \<open>
  The claim as stated fails: the input \<open>error=access_denied\<close> has no state, so its
  state differs from the expected \<open>st1\<close>, and validation succeeds.
\<close>

theorem callback_error_without_state_counterexample:
  "parseAndValidateCallbackInput (\<lambda>u. Inl []) url_ParseQuery_model ''st1'' ''error=access_denied''
     = Inr (\<lparr>cbCode = [], cbState = [], cbError = ''access_denied''\<rparr>, [])"
proof -
  have t: "TrimSpace ''error=access_denied'' = ''error=access_denied''" by code_simp
  show ?thesis
    by (simp add: parseAndValidateCallbackInput_def parseOAuthCallbackInput_def t parseQuery_error HasPrefix_def Values_Get_def)
qed

section \<open>Codex quota snapshots: parsing and the registry\<close>

text \<open>
  Claim C9. Parsing headers that carry \<open>x-codex-plan-type=team\<close>,
  \<open>x-codex-primary-used-percent=12.5\<close> and \<open>x-codex-credits-has-credits=False\<close> yields a
  snapshot with plan type \<open>team\<close>, primary used percent 12.5 and has-credits false
  (whatever other headers there are; \<open>strconv.ParseFloat\<close> reads \<open>12.5\<close> as the number
  12.5). And for every snapshot and every non-empty credential id, reading the registry
  after storing the snapshot under the id returns the snapshot, all fields equal.
\<close>

theorem codex_quota_parse_and_store:
  assumes plan: "Header_Get h ''x-codex-plan-type'' = ''team''"
    and used: "Header_Get h ''x-codex-primary-used-percent'' = ''12.5''"
    and credits: "Header_Get h ''x-codex-credits-has-credits'' = ''False''"
    and pf: "ParseFloat ''12.5'' = Some (FloatFinite (25 / 2))"
  shows "(\<exists>snap. ParseCodexQuotaSnapshot ParseFloat now h = Some snap
            \<and> PlanType snap = ''team''
            \<and> PrimaryUsedPercent snap = Some (FloatFinite (25 / 2))
            \<and> CreditsHasCredits snap = Some False)
         \<and> (\<forall>store aid snap. aid \<noteq> [] \<longrightarrow>
               GetCodexQuotaSnapshot (UpdateCodexQuotaSnapshot store aid (Some snap)) aid = Some snap)"
proof
  have t: "TrimSpace ''team'' = ''team''" by code_simp
  have f: "TrimSpace ''False'' = ''False''" by code_simp
  have l: "ToLower ''False'' = ''false''" by code_simp
  have b: "parseBoolHeader h ''x-codex-credits-has-credits'' = Some False"
    by (simp add: parseBoolHeader_def credits f l del: ToLower.simps)
  have u: "parseFloatHeader ParseFloat h ''x-codex-primary-used-percent'' = Some (FloatFinite (25 / 2))"
    by (simp add: parseFloatHeader_def used pf)
  show "\<exists>snap. ParseCodexQuotaSnapshot ParseFloat now h = Some snap
            \<and> PlanType snap = ''team''
            \<and> PrimaryUsedPercent snap = Some (FloatFinite (25 / 2))
            \<and> CreditsHasCredits snap = Some False"
    by (simp add: ParseCodexQuotaSnapshot_def plan t b u)
next
  show "\<forall>store aid snap. aid \<noteq> [] \<longrightarrow>
               GetCodexQuotaSnapshot (UpdateCodexQuotaSnapshot store aid (Some snap)) aid = Some snap"
    by (simp add: GetCodexQuotaSnapshot_def UpdateCodexQuotaSnapshot_def update_conv')
qed

theorem codex_quota_parse_and_store_witness:
  "(\<exists>snap. ParseCodexQuotaSnapshot (\<lambda>s. if s = ''12.5'' then Some (FloatFinite (25 / 2)) else None) 1000
              [(''X-Codex-Plan-Type'', [''team'']), (''X-Codex-Primary-Used-Percent'', [''12.5'']),
               (''X-Codex-Credits-Has-Credits'', [''False''])] = Some snap
          \<and> PlanType snap = ''team''
          \<and> PrimaryUsedPercent snap = Some (FloatFinite (25 / 2))
          \<and> CreditsHasCredits snap = Some False
          \<and> GetCodexQuotaSnapshot (UpdateCodexQuotaSnapshot [] ''auth-1'' (Some snap)) ''auth-1'' = Some snap)"
proof -
  let ?h = "[(''X-Codex-Plan-Type'', [''team'']), (''X-Codex-Primary-Used-Percent'', [''12.5'']),
               (''X-Codex-Credits-Has-Credits'', [''False''])]"
  let ?pf = "\<lambda>s. if s = ''12.5'' then Some (FloatFinite (25 / 2)) else None"
  have 1: "Header_Get ?h ''x-codex-plan-type'' = ''team''" by code_simp
  have 2: "Header_Get ?h ''x-codex-primary-used-percent'' = ''12.5''" by code_simp
  have 3: "Header_Get ?h ''x-codex-credits-has-credits'' = ''False''" by code_simp
  have 4: "?pf ''12.5'' = Some (FloatFinite (25 / 2))" by simp
  from codex_quota_parse_and_store [of ?h ?pf 1000, OF 1 2 3 4]
  show ?thesis by (metis list.distinct(1))
qed

section \<open>A malformed Authorization header\<close>

text \<open>
  Claim C10, as amended. For every \<open>Authorization\<close> header value that is non-empty
  after trimming and that has no space after a scheme, or whose scheme is not \<open>bearer\<close>
  in any case of letters, \<open>extractBearerToken\<close> returns the entire trimmed value; and a
  request with that header, no \<open>session_id\<close> and no Claude session in its body gets the
  key \<open>apikey:\<close> followed by \<open>sha256_16\<close> of the entire trimmed value: the header is
  not skipped.
\<close>

theorem malformed_authorization_whole_value:
  assumes nonblank: "TrimSpace h \<noteq> []"
    and malformed: "CHR '' '' \<notin> set (TrimSpace h)
        \<or> ToLower (takeWhile (\<lambda>c. c \<noteq> CHR '' '') (TrimSpace h)) \<noteq> ''bearer''"
  shows "extractBearerToken h = TrimSpace h
     \<and> (\<forall>gjson opts.
           Header_Get (Headers opts) ''authorization'' = h
           \<and> TrimSpace (Header_Get (Headers opts) ''session_id'') = []
           \<and> (OriginalRequest opts = []
               \<or> claudeSessionRegex_Find (ToLower (TrimSpace (gjson (OriginalRequest opts) ''metadata.user_id''))) = None)
           \<longrightarrow> extractStickySessionKey gjson opts = ''apikey:'' @ sha256_16 (TrimSpace h))"
proof -
  have tok: "extractBearerToken h = TrimSpace h"
    using nonblank malformed
    by (auto simp: extractBearerToken_def Let_def SplitN2_def simp del: ToLower.simps)
  show ?thesis
  proof (intro conjI allI impI)
    show "extractBearerToken h = TrimSpace h" by (rule tok)
  next
    fix gjson :: "string \<Rightarrow> string \<Rightarrow> string" and opts :: Options
    assume a: "Header_Get (Headers opts) ''authorization'' = h
           \<and> TrimSpace (Header_Get (Headers opts) ''session_id'') = []
           \<and> (OriginalRequest opts = []
               \<or> claudeSessionRegex_Find (ToLower (TrimSpace (gjson (OriginalRequest opts) ''metadata.user_id''))) = None)"
    have "extractStickySessionKey gjson opts = ''apikey:'' @ sha256_16 (extractBearerToken h)"
      using a nonblank tok
      by (auto simp: extractStickySessionKey_refines sessionKey_spec_def simp del: ToLower.simps claudeSessionRegex_Find.simps)
    then show "extractStickySessionKey gjson opts = ''apikey:'' @ sha256_16 (TrimSpace h)"
      by (simp add: tok)
  qed
qed

theorem malformed_authorization_whole_value_witness:
  "extractBearerToken ''Basic abc'' = ''Basic abc''
   \<and> extractStickySessionKey (\<lambda>body path. [])
        \<lparr>Headers = [(''Authorization'', [''Basic abc''])], OriginalRequest = []\<rparr>
      = ''apikey:'' @ sha256_16 ''Basic abc''"
proof -
  have t: "TrimSpace ''Basic abc'' = ''Basic abc''" by code_simp
  have 1: "TrimSpace ''Basic abc'' \<noteq> []" by (simp add: t)
  have 2: "CHR '' '' \<notin> set (TrimSpace ''Basic abc'')
        \<or> ToLower (takeWhile (\<lambda>c. c \<noteq> CHR '' '') (TrimSpace ''Basic abc'')) \<noteq> ''bearer''"
    unfolding t by code_simp
  have 3: "Header_Get (Headers \<lparr>Headers = [(''Authorization'', [''Basic abc''])], OriginalRequest = []\<rparr>) ''authorization'' = ''Basic abc''"
    by code_simp
  have 4: "TrimSpace (Header_Get (Headers \<lparr>Headers = [(''Authorization'', [''Basic abc''])], OriginalRequest = []\<rparr>) ''session_id'') = []"
    by code_simp
  from malformed_authorization_whole_value [OF 1 2] 3 4 show ?thesis
    by (simp add: t)
qed

text \<open>
  The claim as stated fails for a value that is not empty but blank: a header of one
  space has no \<open>bearer\<close> scheme, its token is empty, and the key is derived from the
  next source, here the \<open>User-Agent\<close>.
\<close>

theorem blank_authorization_counterexample:
  "'' '' \<noteq> [] \<and> ToLower (takeWhile (\<lambda>c. c \<noteq> CHR '' '') '' '') \<noteq> ''bearer''
   \<and> extractBearerToken '' '' = []
   \<and> extractStickySessionKey (\<lambda>body path. [])
        \<lparr>Headers = [(''Authorization'', ['' '']), (''User-Agent'', [''curl''])], OriginalRequest = []\<rparr>
      = ''ua:'' @ stableHash ''curl''"
proof -
  have 1: "extractBearerToken '' '' = []" by code_simp
  have 2: "Header_Get [(''Authorization'', ['' '']), (''User-Agent'', [''curl''])] ''authorization'' = '' ''" by code_simp
  have 3: "Header_Get [(''Authorization'', ['' '']), (''User-Agent'', [''curl''])] ''session_id'' = []" by code_simp
  have 4: "Header_Get [(''Authorization'', ['' '']), (''User-Agent'', [''curl''])] ''x-api-key'' = []" by code_simp
  have 5: "Header_Get [(''Authorization'', ['' '']), (''User-Agent'', [''curl''])] ''x-goog-api-key'' = []" by code_simp
  have 6: "Header_Get [(''Authorization'', ['' '']), (''User-Agent'', [''curl''])] ''user-agent'' = ''curl''" by code_simp
  have 7: "TrimSpace ''curl'' = ''curl''" by code_simp
  have 8: "TrimSpace [] = []" by code_simp
  have 9: "stableHash ''curl'' \<noteq> []"
    using sha256_16_nonempty [of "''curl''"] by (simp add: stableHash_def 7 sha256_16_def)
  show ?thesis
    using 9 by (simp add: extractStickySessionKey_def 1 2 3 4 5 6 7 8)
qed

end
